theory Spec2Isabelle
  imports Main
begin

section \<open>Strings as the scripts see them\<close>

text \<open>
  The repository's replica synchronisation lives in three PowerShell scripts:
  the hook installer \<^verbatim>\<open>scripts/install_hooks.ps1\<close>, the script \<^verbatim>\<open>scripts/sync_db.ps1\<close>
  (written for PowerShell 5.1, called variant 2 below) and an earlier copy of the same
  script that uses the ternary operator of PowerShell 7 (variant 1).

  A string is a list of characters with codes below 256; text with other characters
  is outside the model. \<^verbatim>\<open>Trim()\<close> removes from both ends the characters that are
  white space for .NET: in this range the codes 9 to 13 and 32, the next-line character
  \<^verbatim>\<open>U+0085\<close> and the no-break space \<^verbatim>\<open>U+00A0\<close>. \<^verbatim>\<open>ToLower()\<close> folds \<^verbatim>\<open>A-Z\<close>, and the
  operators \<^verbatim>\<open>-eq\<close>, \<^verbatim>\<open>-ne\<close> and \<^verbatim>\<open>-match\<close>, which ignore case in PowerShell, compare
  the folded strings. Characters outside ASCII are compared as they are.
\<close>

definition LF :: char where
  "LF = CHR 0x0A"

definition CR :: char where
  "CR = CHR 0x0D"

definition is_space :: "char \<Rightarrow> bool" where
  "is_space c =
     (c \<in> set [CHR 0x09, CHR 0x0A, CHR 0x0B, CHR 0x0C, CHR 0x0D, CHR '' '', CHR 0x85, CHR 0xA0])"

definition Trim :: "string \<Rightarrow> string" where
  "Trim s = rev (dropWhile is_space (rev (dropWhile is_space s)))"

definition lower_char :: "char \<Rightarrow> char" where
  "lower_char c =
     (case map_of (zip ''ABCDEFGHIJKLMNOPQRSTUVWXYZ'' ''abcdefghijklmnopqrstuvwxyz'') c of
        Some l \<Rightarrow> l
      | None \<Rightarrow> c)"

definition ToLower :: "string \<Rightarrow> string" where
  "ToLower s = map lower_char s"

text \<open>PowerShell's \<^verbatim>\<open>-eq\<close> on two strings.\<close>

definition ps_eq :: "string \<Rightarrow> string \<Rightarrow> bool" where
  "ps_eq a b = (ToLower a = ToLower b)"

datatype platform = Windows | Unix

text \<open>\<^verbatim>\<open>[Environment]::NewLine\<close>, which \<^verbatim>\<open>Set-Content\<close> appends to the value it writes.\<close>

fun NewLine :: "platform \<Rightarrow> string" where
  "NewLine Windows = [CR, LF]"
| "NewLine Unix = [LF]"

section \<open>The world of one run\<close>

text \<open>
  \<^verbatim>\<open>Join-Path $root name\<close> is \<open>Root name\<close> and \<^verbatim>\<open>Join-Path $env:TEMP name\<close> is
  \<open>Temp name\<close>: the working copy and the scratch directory are taken to be two
  different directories, the names to be plain file names, and two names to denote the
  same file only when they are equal.
\<close>

datatype path = Root string | Temp string

text \<open>The reply of the release store: \<^verbatim>\<open>tag_name\<close> and \<^verbatim>\<open>assets\<close>, each asset with its
  \<^verbatim>\<open>name\<close> and \<^verbatim>\<open>browser_download_url\<close>.\<close>

record release_asset =
  name :: string
  browser_download_url :: string

record release =
  tag_name :: string
  assets :: "release_asset list"

text \<open>The script's \<^verbatim>\<open>Param\<close> block. The defaults of the last two are
  \<^verbatim>\<open>db_release.sqlite3\<close> and \<^verbatim>\<open>db_release.sha256.txt\<close>.\<close>

record params =
  Owner :: string
  Repo :: string
  AssetName :: string
  ShaAssetName :: string

text \<open>
  What \<^verbatim>\<open>git config --get remote.origin.url\<close> gives: the command cannot be run
  (\<open>GitFailed\<close>, a terminating error under \<^verbatim>\<open>$ErrorActionPreference = "Stop"\<close>), or
  its output, which is empty when no remote is configured.
\<close>

datatype git_result = GitFailed | GitOutput string

text \<open>
  What a download gives: the body, or an error after which the output file holds whatever
  the transfer left there, if anything.
\<close>

datatype download = Fetched string | Broken "string option"

text \<open>The fields of \<^verbatim>\<open>Get-Date\<close> that the format \<^verbatim>\<open>yyyyMMdd-HHmmss\<close> prints.\<close>

record datetime =
  year :: nat
  month :: nat
  day :: nat
  hour :: nat
  minute :: nat
  second :: nat

text \<open>
  Everything a run reads from outside: the platform, git, the release store
  (\<open>rest_get\<close> answers \<^verbatim>\<open>Invoke-RestMethod\<close>, \<open>None\<close> when it throws; \<open>web_get\<close> answers
  \<^verbatim>\<open>Invoke-WebRequest\<close>), the digest \<^verbatim>\<open>(Get-FileHash -Algorithm SHA256).Hash\<close> of a file
  content (64 upper-case hexadecimal digits in PowerShell; a parameter here), the clock,
  and whether \<^verbatim>\<open>Copy-Item\<close>, \<^verbatim>\<open>Move-Item\<close>, \<^verbatim>\<open>Set-Content\<close> and \<^verbatim>\<open>Remove-Item\<close> succeed.
  A copy, a write or a removal that fails changes nothing. \<^verbatim>\<open>Move-Item -Force\<close> deletes
  a file that is at the destination and then moves; when it fails, the file that was at
  the destination is still there (\<open>move_keeps_target\<close>) or is gone.
\<close>

record env =
  platform :: platform
  git_remote :: git_result
  rest_get :: "string \<Rightarrow> release option"
  web_get :: "string \<Rightarrow> download"
  file_hash :: "string \<Rightarrow> string"
  clock :: datetime
  copy_ok :: bool
  move_ok :: bool
  move_keeps_target :: bool
  write_ok :: bool
  remove_ok :: bool

datatype request = RestGet string | WebGet string

text \<open>The files, and the network requests made so far, oldest first.\<close>

record world =
  files :: "path \<rightharpoonup> string"
  requests :: "request list"

text \<open>
  Every way a run ends early. The first five are the script's own \<^verbatim>\<open>throw\<close> and
  \<^verbatim>\<open>Write-Error\<close> sites (and the uncaught download error), named as the design names
  them; \<open>NullValueError\<close> is a method call on \<^verbatim>\<open>$null\<close>; \<open>ReadError\<close> is
  \<^verbatim>\<open>Get-Content\<close> or \<^verbatim>\<open>Get-FileHash\<close> on a file that is not there; the last three are
  the errors of \<^verbatim>\<open>Copy-Item\<close>, \<^verbatim>\<open>Move-Item\<close> and \<^verbatim>\<open>Set-Content\<close>. All of them
  terminate the script under \<^verbatim>\<open>$ErrorActionPreference = "Stop"\<close>.
\<close>

datatype failure =
    ConfigurationError
  | RemoteUnavailableError
  | AssetNotFoundError
  | DownloadError
  | IntegrityError
  | NullValueError
  | ReadError
  | CopyError
  | MoveError
  | WriteError

datatype outcome = Failed failure | Skipped | Synced

fun exit_code :: "outcome \<Rightarrow> nat" where
  "exit_code (Failed f) = 1"
| "exit_code Skipped = 0"
| "exit_code Synced = 0"

definition targetDb :: path where
  "targetDb = Root ''db.sqlite3''"

definition versionFile :: path where
  "versionFile = Root ''.db_version''"

definition tmpDownload :: "params \<Rightarrow> path" where
  "tmpDownload p = Temp (AssetName p)"

definition shaTmp :: "params \<Rightarrow> path" where
  "shaTmp p = Temp (ShaAssetName p)"

definition Test_Path :: "world \<Rightarrow> path \<Rightarrow> bool" where
  "Test_Path w f = (files w f \<noteq> None)"

section \<open>Remote Locator\<close>

text \<open>
  \<^verbatim>\<open>$url -match "github\.com[:/](?<owner>[^/]+)/(?<repo>[^/.]+)(\.git)?$"\<close>.
  \<open>ci_prefix lit s\<close>: the literal matches at the start of \<open>s\<close>, ignoring case.
  \<open>at_end\<close> is \<^verbatim>\<open>$\<close>: the end of the text, or a line feed that ends it.
\<close>

definition ci_prefix :: "string \<Rightarrow> string \<Rightarrow> bool" where
  "ci_prefix lit s = (length lit \<le> length s \<and> ps_eq (take (length lit) s) lit)"

definition at_end :: "string \<Rightarrow> bool" where
  "at_end s = (s = [] \<or> s = [LF])"

definition not_slash :: "char \<Rightarrow> bool" where
  "not_slash c = (c \<noteq> CHR ''/'')"

definition not_slash_dot :: "char \<Rightarrow> bool" where
  "not_slash_dot c = (c \<noteq> CHR ''/'' \<and> c \<noteq> CHR ''.'')"

text \<open>
  The match that starts at the head of \<open>s\<close>, if there is one. After the host and the
  separator, \<^verbatim>\<open>[^/]+\<close> must be followed by a slash, so the owner is the whole run up to
  the next slash. \<^verbatim>\<open>[^/.]+\<close> is greedy and takes the whole run first; a shorter repo
  would leave a character of the run in front of \<^verbatim>\<open>(\.git)?$\<close>, which then matches only
  if that character is a line feed ending the text, and in that case the whole run
  has matched already. So the repo is the whole run, followed by the end or by
  \<^verbatim>\<open>.git\<close> and the end.
\<close>

definition match_here :: "string \<Rightarrow> (string \<times> string) option" where
  "match_here s =
     (if \<not> ci_prefix ''github.com'' s then None
      else case drop 10 s of
        [] \<Rightarrow> None
      | sep # s1 \<Rightarrow>
          if sep \<noteq> CHR '':'' \<and> sep \<noteq> CHR ''/'' then None
          else let owner = takeWhile not_slash s1 in
            if owner = [] then None
            else case dropWhile not_slash s1 of
              [] \<Rightarrow> None
            | slash # s2 \<Rightarrow>
                let repo = takeWhile not_slash_dot s2; s3 = dropWhile not_slash_dot s2 in
                if repo = [] then None
                else if (ci_prefix ''.git'' s3 \<and> at_end (drop 4 s3)) \<or> at_end s3
                  then Some (owner, repo)
                  else None)"

text \<open>The pattern is not anchored on the left: the leftmost start that matches wins.\<close>

fun first_match :: "string \<Rightarrow> (string \<times> string) option" where
  "first_match [] = None"
| "first_match (c # cs) =
     (case match_here (c # cs) of Some r \<Rightarrow> Some r | None \<Rightarrow> first_match cs)"

definition Parse_GitRemote :: "string \<Rightarrow> string \<times> string" where
  "Parse_GitRemote url = (case first_match url of Some r \<Rightarrow> r | None \<Rightarrow> ([], []))"

text \<open>
  Variant 1: the call of git is not guarded, and the check follows the parse inside the
  same \<^verbatim>\<open>if\<close>. A string is false in PowerShell exactly when it is empty.
\<close>

definition resolve_v1 :: "params \<Rightarrow> env \<Rightarrow> failure + string \<times> string" where
  "resolve_v1 p e =
     (if Owner p = [] \<or> Repo p = [] then
        (case git_remote e of
           GitFailed \<Rightarrow> Inl ConfigurationError
         | GitOutput remote \<Rightarrow>
             let pair = Parse_GitRemote remote in
             if fst pair = [] \<or> snd pair = [] then Inl ConfigurationError else Inr pair)
      else Inr (Owner p, Repo p))"

text \<open>Variant 2: \<^verbatim>\<open>try { ... } catch { }\<close> around git and the parse, then the check.\<close>

definition resolve_v2 :: "params \<Rightarrow> env \<Rightarrow> failure + string \<times> string" where
  "resolve_v2 p e =
     (let pair =
        (if Owner p = [] \<or> Repo p = [] then
           (case git_remote e of
              GitFailed \<Rightarrow> (Owner p, Repo p)
            | GitOutput remote \<Rightarrow> Parse_GitRemote remote)
         else (Owner p, Repo p))
      in if fst pair = [] \<or> snd pair = [] then Inl ConfigurationError else Inr pair)"

section \<open>Release Resolver and Version Tracker\<close>

definition api_url :: "string \<Rightarrow> string \<Rightarrow> string" where
  "api_url owner repo =
     ''https://api.github.com/repos/'' @ owner @ ''/'' @ repo @ ''/releases/latest''"

definition Invoke_RestMethod :: "env \<Rightarrow> string \<Rightarrow> world \<Rightarrow> release option \<times> world" where
  "Invoke_RestMethod e uri w =
     (rest_get e uri, w\<lparr>requests := requests w @ [RestGet uri]\<rparr>)"

text \<open>\<^verbatim>\<open>Get-Content -Raw\<close> gives \<^verbatim>\<open>$null\<close> for a file of no bytes, and else the whole
  content, line terminators included.\<close>

definition Get_Content_Raw :: "string \<Rightarrow> string option" where
  "Get_Content_Raw content = (if content = [] then None else Some content)"

text \<open>
  Variant 1: \<^verbatim>\<open>(Test-Path $versionFile) ? (Get-Content $versionFile -Raw) : ""\<close>.
  The result is \<^verbatim>\<open>$null\<close> (\<open>None\<close>) for an empty marker file.
\<close>

definition localTag_v1 :: "world \<Rightarrow> string option" where
  "localTag_v1 w =
     (case files w versionFile of
        None \<Rightarrow> Some []
      | Some content \<Rightarrow> Get_Content_Raw content)"

text \<open>
  Variant 2: \<^verbatim>\<open>(Get-Content $versionFile -Raw).Trim()\<close> when the file exists, and the
  empty string otherwise. \<^verbatim>\<open>Trim\<close> on \<^verbatim>\<open>$null\<close> is a terminating error.
\<close>

definition localTag_v2 :: "world \<Rightarrow> failure + string" where
  "localTag_v2 w =
     (case files w versionFile of
        None \<Rightarrow> Inr []
      | Some content \<Rightarrow>
          (case Get_Content_Raw content of
             None \<Rightarrow> Inl NullValueError
           | Some raw \<Rightarrow> Inr (Trim raw)))"

text \<open>\<^verbatim>\<open>$remoteTag -eq $localTag -and (Test-Path $targetDb)\<close>; a string is never
  \<^verbatim>\<open>-eq\<close> to \<^verbatim>\<open>$null\<close>.\<close>

definition shouldSkip_v1 :: "string \<Rightarrow> world \<Rightarrow> bool" where
  "shouldSkip_v1 remoteTag w =
     ((case localTag_v1 w of None \<Rightarrow> False | Some localTag \<Rightarrow> ps_eq remoteTag localTag)
      \<and> Test_Path w targetDb)"

definition shouldSkip_v2 :: "string \<Rightarrow> string \<Rightarrow> world \<Rightarrow> bool" where
  "shouldSkip_v2 remoteTag localTag w = (ps_eq remoteTag localTag \<and> Test_Path w targetDb)"

section \<open>Artifact Fetcher\<close>

text \<open>\<^verbatim>\<open>$rel.assets | Where-Object { $_.name -eq $n } | Select-Object -First 1\<close>\<close>

definition find_asset :: "release_asset list \<Rightarrow> string \<Rightarrow> release_asset option" where
  "find_asset as n = List.find (\<lambda>a. ps_eq (name a) n) as"

text \<open>\<^verbatim>\<open>Invoke-WebRequest -Uri uri -OutFile out\<close>: \<open>True\<close> when the body was written.\<close>

definition Invoke_WebRequest :: "env \<Rightarrow> string \<Rightarrow> path \<Rightarrow> world \<Rightarrow> bool \<times> world" where
  "Invoke_WebRequest e uri out w =
     (let w' = w\<lparr>requests := requests w @ [WebGet uri]\<rparr> in
      case web_get e uri of
        Fetched body \<Rightarrow> (True, w'\<lparr>files := (files w')(out \<mapsto> body)\<rparr>)
      | Broken None \<Rightarrow> (False, w')
      | Broken (Some partial) \<Rightarrow> (False, w'\<lparr>files := (files w')(out \<mapsto> partial)\<rparr>))"

section \<open>Integrity Verifier\<close>

text \<open>
  The lines of a file as \<^verbatim>\<open>Get-Content\<close> and \<^verbatim>\<open>Select-String\<close> read them: a line ends at
  CR LF, at LF or at CR, and the text after the last terminator is a line when it is
  not empty. The first argument is the line read so far.
\<close>

fun ReadLines :: "string \<Rightarrow> string \<Rightarrow> string list" where
  "ReadLines acc [] = (if acc = [] then [] else [acc])"
| "ReadLines acc [c] = (if c = CR \<or> c = LF then [acc] else [acc @ [c]])"
| "ReadLines acc (c # d # cs) =
     (if c = CR \<and> d = LF then acc # ReadLines [] cs
      else if c = CR \<or> c = LF then acc # ReadLines [] (d # cs)
      else ReadLines (acc @ [c]) (d # cs))"

definition is_hex :: "char \<Rightarrow> bool" where
  "is_hex c = (c \<in> set ''0123456789abcdefABCDEF'')"

text \<open>\<^verbatim>\<open>[0-9a-fA-F]{64}\<close> at the head of \<open>s\<close>, and its leftmost match in \<open>s\<close>.\<close>

definition hex64_here :: "string \<Rightarrow> bool" where
  "hex64_here s = (64 \<le> length s \<and> list_all is_hex (take 64 s))"

fun first_hex64 :: "string \<Rightarrow> string option" where
  "first_hex64 [] = None"
| "first_hex64 (c # cs) =
     (if hex64_here (c # cs) then Some (take 64 (c # cs)) else first_hex64 cs)"

text \<open>
  \<^verbatim>\<open>Select-String -Path f -Pattern "[0-9a-fA-F]{64}" | Select-Object -First 1\<close>, then
  \<^verbatim>\<open>$m.Matches[0].Value\<close>: the leftmost match in the first line that has one.
\<close>

fun Select_String_First :: "string list \<Rightarrow> string option" where
  "Select_String_First [] = None"
| "Select_String_First (l # ls) =
     (case first_hex64 l of Some m \<Rightarrow> Some m | None \<Rightarrow> Select_String_First ls)"

text \<open>
  Variant 1: \<^verbatim>\<open>(Get-Content $shaTmp).Split(" ")[0].Trim()\<close>. \<^verbatim>\<open>Get-Content\<close> gives the
  lines (\<^verbatim>\<open>$null\<close> when there is none, and the method call fails); \<^verbatim>\<open>Split\<close> runs on
  each line and element 0 is the text before the first space of the first line.
\<close>

definition expected_v1 :: "string \<Rightarrow> failure + string" where
  "expected_v1 content =
     (case ReadLines [] content of
        [] \<Rightarrow> Inl NullValueError
      | l # ls \<Rightarrow> Inr (Trim (takeWhile (\<lambda>c. c \<noteq> CHR '' '') l)))"

text \<open>
  Variant 2: \<^verbatim>\<open>(Get-Content $shaTmp -Raw).Trim().ToLower()\<close>, and when that is not
  \<^verbatim>\<open>^[0-9a-f]{64}$\<close>, the first 64 hexadecimal digits that \<^verbatim>\<open>Select-String\<close> finds,
  in lower case, if it finds any.
\<close>

definition hex64_only :: "string \<Rightarrow> bool" where
  "hex64_only s = (hex64_here s \<and> at_end (drop 64 s))"

definition expected_v2 :: "string \<Rightarrow> failure + string" where
  "expected_v2 content =
     (case Get_Content_Raw content of
        None \<Rightarrow> Inl NullValueError
      | Some raw \<Rightarrow>
          let expected = ToLower (Trim raw) in
          if \<not> hex64_only expected then
            (case Select_String_First (ReadLines [] content) of
               Some m \<Rightarrow> Inr (ToLower m)
             | None \<Rightarrow> Inr expected)
          else Inr expected)"

text \<open>\<^verbatim>\<open>(Get-FileHash $tmpDownload -Algorithm SHA256).Hash.ToLower()\<close>\<close>

definition actual_hash :: "env \<Rightarrow> string \<Rightarrow> string" where
  "actual_hash e content = ToLower (file_hash e content)"

text \<open>
  The verification block of each variant, entered after the primary download. It gives
  the failure, if any, and the world it leaves. On a mismatch variant 1 stops
  (\<^verbatim>\<open>Write-Error\<close>, \<^verbatim>\<open>exit 1\<close>); variant 2 first removes the staged artifact,
  ignoring the error of \<^verbatim>\<open>Remove-Item\<close> if there is one.
\<close>

definition verify_v1 :: "params \<Rightarrow> env \<Rightarrow> release \<Rightarrow> world \<Rightarrow> failure option \<times> world" where
  "verify_v1 p e rel w =
     (case find_asset (assets rel) (ShaAssetName p) of
        None \<Rightarrow> (None, w)
      | Some shaAsset \<Rightarrow>
          (case Invoke_WebRequest e (browser_download_url shaAsset) (shaTmp p) w of
             (False, w1) \<Rightarrow> (Some DownloadError, w1)
           | (True, w1) \<Rightarrow>
               (case files w1 (shaTmp p) of
                  None \<Rightarrow> (Some ReadError, w1)
                | Some content \<Rightarrow>
                    (case expected_v1 content of
                       Inl f \<Rightarrow> (Some f, w1)
                     | Inr expected \<Rightarrow>
                         (case files w1 (tmpDownload p) of
                            None \<Rightarrow> (Some ReadError, w1)
                          | Some artifact \<Rightarrow>
                              if \<not> ps_eq (ToLower expected) (actual_hash e artifact)
                              then (Some IntegrityError, w1)
                              else (None, w1))))))"

definition Remove_Item :: "env \<Rightarrow> path \<Rightarrow> world \<Rightarrow> world" where
  "Remove_Item e f w = (if remove_ok e then w\<lparr>files := (files w)(f := None)\<rparr> else w)"

definition verify_v2 :: "params \<Rightarrow> env \<Rightarrow> release \<Rightarrow> world \<Rightarrow> failure option \<times> world" where
  "verify_v2 p e rel w =
     (case find_asset (assets rel) (ShaAssetName p) of
        None \<Rightarrow> (None, w)
      | Some shaAsset \<Rightarrow>
          (case Invoke_WebRequest e (browser_download_url shaAsset) (shaTmp p) w of
             (False, w1) \<Rightarrow> (Some DownloadError, w1)
           | (True, w1) \<Rightarrow>
               (case files w1 (shaTmp p) of
                  None \<Rightarrow> (Some ReadError, w1)
                | Some content \<Rightarrow>
                    (case expected_v2 content of
                       Inl f \<Rightarrow> (Some f, w1)
                     | Inr expected \<Rightarrow>
                         (case files w1 (tmpDownload p) of
                            None \<Rightarrow> (Some ReadError, w1)
                          | Some artifact \<Rightarrow>
                              if \<not> ps_eq expected (actual_hash e artifact)
                              then (Some IntegrityError, Remove_Item e (tmpDownload p) w1)
                              else (None, w1))))))"

section \<open>Replacer\<close>

text \<open>\<^verbatim>\<open>Get-Date -Format "yyyyMMdd-HHmmss"\<close>\<close>

definition digit :: "nat \<Rightarrow> char" where
  "digit n = ''0123456789'' ! (n mod 10)"

definition two_digits :: "nat \<Rightarrow> string" where
  "two_digits n = [digit (n div 10), digit n]"

definition four_digits :: "nat \<Rightarrow> string" where
  "four_digits n = [digit (n div 1000), digit (n div 100), digit (n div 10), digit n]"

definition Get_Date_Format :: "datetime \<Rightarrow> string" where
  "Get_Date_Format d =
     four_digits (year d) @ two_digits (month d) @ two_digits (day d) @ ''-'' @
     two_digits (hour d) @ two_digits (minute d) @ two_digits (second d)"

text \<open>\<^verbatim>\<open>"$targetDb.bak.$ts"\<close>\<close>

definition backupPath :: "env \<Rightarrow> path" where
  "backupPath e = Root (''db.sqlite3'' @ ''.bak.'' @ Get_Date_Format (clock e))"

text \<open>
  The three file operations of the replace sequence; \<open>None\<close>, and \<open>False\<close> for the move,
  is the terminating error. \<^verbatim>\<open>Copy-Item\<close> and \<^verbatim>\<open>Move-Item -Force\<close> overwrite a file that
  is at the destination. A move whose source is missing fails before it touches the
  destination; any other move that fails may have deleted the file at the destination.
\<close>

definition Copy_Item :: "env \<Rightarrow> path \<Rightarrow> path \<Rightarrow> world \<Rightarrow> world option" where
  "Copy_Item e src dst w =
     (case files w src of
        None \<Rightarrow> None
      | Some content \<Rightarrow>
          if copy_ok e then Some (w\<lparr>files := (files w)(dst \<mapsto> content)\<rparr>) else None)"

definition Move_Item :: "env \<Rightarrow> path \<Rightarrow> path \<Rightarrow> world \<Rightarrow> bool \<times> world" where
  "Move_Item e src dst w =
     (case files w src of
        None \<Rightarrow> (False, w)
      | Some content \<Rightarrow>
          if move_ok e then (True, w\<lparr>files := (files w)(src := None, dst \<mapsto> content)\<rparr>)
          else if move_keeps_target e then (False, w)
          else (False, w\<lparr>files := (files w)(dst := None)\<rparr>))"

definition Set_Content :: "env \<Rightarrow> path \<Rightarrow> string \<Rightarrow> world \<Rightarrow> world option" where
  "Set_Content e f v w =
     (if write_ok e then Some (w\<lparr>files := (files w)(f \<mapsto> v @ NewLine (platform e))\<rparr>)
      else None)"

text \<open>Backup, then replace, then the marker: the same lines in both variants.\<close>

definition backup_db :: "env \<Rightarrow> world \<Rightarrow> world option" where
  "backup_db e w =
     (if Test_Path w targetDb then Copy_Item e targetDb (backupPath e) w else Some w)"

definition replace_db :: "params \<Rightarrow> env \<Rightarrow> string \<Rightarrow> world \<Rightarrow> outcome \<times> world" where
  "replace_db p e remoteTag w =
     (case backup_db e w of
        None \<Rightarrow> (Failed CopyError, w)
      | Some w1 \<Rightarrow>
          (case Move_Item e (tmpDownload p) targetDb w1 of
             (False, w2) \<Rightarrow> (Failed MoveError, w2)
           | (True, w2) \<Rightarrow>
               (case Set_Content e versionFile remoteTag w2 of
                  None \<Rightarrow> (Failed WriteError, w2)
                | Some w3 \<Rightarrow> (Synced, w3))))"

section \<open>The two sync scripts\<close>

text \<open>
  Each script first finds the working copy and goes there (\<^verbatim>\<open>Get-RepoRoot\<close>,
  \<^verbatim>\<open>Set-Location\<close>). It reads the output of \<^verbatim>\<open>git rev-parse --show-toplevel\<close>
  (\<open>GitFailed\<close> when git cannot be run, nothing when git reports an error), its own
  directory \<^verbatim>\<open>$PSScriptRoot\<close>, which is also \<^verbatim>\<open>Split-Path -Parent $PSCommandPath\<close> and is
  empty when the script is not run from a file, the directory above that one (empty
  when there is none) and the current location.
\<close>

record location =
  toplevel :: git_result
  PSScriptRoot :: string
  PSScriptRoot_parent :: string
  current_location :: string

text \<open>
  Variant 1: \<^verbatim>\<open>try { (git rev-parse --show-toplevel) } catch { Split-Path -Parent
  $PSCommandPath }\<close>. \<open>None\<close> is a run that ends here: git has printed nothing, the root
  is \<^verbatim>\<open>$null\<close> and \<^verbatim>\<open>Set-Location\<close> fails, or \<^verbatim>\<open>Split-Path\<close> fails on an empty path.
\<close>

definition Get_RepoRoot_v1 :: "location \<Rightarrow> string option" where
  "Get_RepoRoot_v1 l =
     (case toplevel l of
        GitFailed \<Rightarrow> if PSScriptRoot l = [] then None else Some (PSScriptRoot l)
      | GitOutput out \<Rightarrow> if out = [] then None else Some out)"

text \<open>
  Variant 2: the directory above the script's own; the script's own directory when
  there is none above; the current location when \<^verbatim>\<open>Split-Path\<close> fails on an empty
  \<^verbatim>\<open>$PSScriptRoot\<close>.
\<close>

definition Get_RepoRoot_v2 :: "location \<Rightarrow> string" where
  "Get_RepoRoot_v2 l =
     (if PSScriptRoot l = [] then current_location l
      else if PSScriptRoot_parent l \<noteq> [] then PSScriptRoot_parent l
      else PSScriptRoot l)"

text \<open>
  The rest of a run is modelled from there: \<open>Root name\<close> is the file \<open>name\<close> in the
  directory that the running script has found. Left out are the request headers
  (\<^verbatim>\<open>Accept\<close>, and \<^verbatim>\<open>Authorization\<close> when \<^verbatim>\<open>GITHUB_TOKEN\<close> is set) and the messages of
  \<^verbatim>\<open>Write-Host\<close>. \<^verbatim>\<open>Write-Error\<close> followed by \<^verbatim>\<open>exit 1\<close> and \<^verbatim>\<open>throw\<close> both end the run
  with a failure.
\<close>

text \<open>From the asset lookup to the end; \<open>verify\<close> is the variant's verification block.\<close>

definition fetch_and_replace ::
  "(params \<Rightarrow> env \<Rightarrow> release \<Rightarrow> world \<Rightarrow> failure option \<times> world) \<Rightarrow>
   params \<Rightarrow> env \<Rightarrow> release \<Rightarrow> world \<Rightarrow> outcome \<times> world" where
  "fetch_and_replace verify p e rel w =
     (case find_asset (assets rel) (AssetName p) of
        None \<Rightarrow> (Failed AssetNotFoundError, w)
      | Some asset \<Rightarrow>
          (case Invoke_WebRequest e (browser_download_url asset) (tmpDownload p) w of
             (False, w1) \<Rightarrow> (Failed DownloadError, w1)
           | (True, w1) \<Rightarrow>
               (case verify p e rel w1 of
                  (Some f, w2) \<Rightarrow> (Failed f, w2)
                | (None, w2) \<Rightarrow> replace_db p e (tag_name rel) w2)))"

definition sync_db_v1 :: "params \<Rightarrow> env \<Rightarrow> world \<Rightarrow> outcome \<times> world" where
  "sync_db_v1 p e w =
     (case resolve_v1 p e of
        Inl f \<Rightarrow> (Failed f, w)
      | Inr (owner, repo) \<Rightarrow>
          (case Invoke_RestMethod e (api_url owner repo) w of
             (None, w1) \<Rightarrow> (Failed RemoteUnavailableError, w1)
           | (Some rel, w1) \<Rightarrow>
               if shouldSkip_v1 (tag_name rel) w1 then (Skipped, w1)
               else fetch_and_replace verify_v1 p e rel w1))"

definition sync_db_v2 :: "params \<Rightarrow> env \<Rightarrow> world \<Rightarrow> outcome \<times> world" where
  "sync_db_v2 p e w =
     (case resolve_v2 p e of
        Inl f \<Rightarrow> (Failed f, w)
      | Inr (owner, repo) \<Rightarrow>
          (case Invoke_RestMethod e (api_url owner repo) w of
             (None, w1) \<Rightarrow> (Failed RemoteUnavailableError, w1)
           | (Some rel, w1) \<Rightarrow>
               (case localTag_v2 w1 of
                  Inl f \<Rightarrow> (Failed f, w1)
                | Inr localTag \<Rightarrow>
                    if shouldSkip_v2 (tag_name rel) localTag w1 then (Skipped, w1)
                    else fetch_and_replace verify_v2 p e rel w1)))"

section \<open>Lifecycle Hook Installer\<close>

text \<open>
  \<^verbatim>\<open>scripts/install_hooks.ps1\<close>. Paths are strings here, joined with a backslash. The
  installer reads the directory above the script's own (\<open>script_parent\<close>), the output of
  \<^verbatim>\<open>git rev-parse --show-toplevel\<close> (\<open>None\<close> when git fails or prints nothing, so that
  \<^verbatim>\<open>.Trim()\<close> fails), the line break of the here-string, the platform, and whether
  \<^verbatim>\<open>Set-Content\<close> can write a path.
\<close>

definition BSL :: char where
  "BSL = CHR 0x5C"

definition DQ :: char where
  "DQ = CHR 0x22"

definition Join_Path :: "string \<Rightarrow> string \<Rightarrow> string" where
  "Join_Path a b = a @ [BSL] @ b"

record hook_env =
  script_parent :: string
  git_toplevel :: "string option"
  here_eol :: string
  hook_platform :: platform
  can_write :: "string \<Rightarrow> bool"

text \<open>The paths that exist as directories, and the files.\<close>

record disk =
  dirs :: "string set"
  dfiles :: "string \<rightharpoonup> string"

definition Test_Path_disk :: "disk \<Rightarrow> string \<Rightarrow> bool" where
  "Test_Path_disk d f = (f \<in> dirs d \<or> dfiles d f \<noteq> None)"

text \<open>The installer's two \<^verbatim>\<open>throw\<close> sites, with the message thrown, and the error of
  \<^verbatim>\<open>Set-Content\<close>.\<close>

datatype hook_failure = EnvironmentError string | HookWriteError

definition bat_lines :: "string list" where
  "bat_lines =
     [''@echo off'',
      ''REM Auto-sync DB from latest GitHub Release on checkout/merge/rewrite'',
      ''REM Uses PowerShell to run scripts'' @ [BSL] @ ''sync_db.ps1'',
      ''powershell -NoProfile -ExecutionPolicy Bypass -File '' @ [DQ] @
        ''%~dp0..'' @ [BSL] @ ''..'' @ [BSL] @ ''scripts'' @ [BSL] @ ''sync_db.ps1'' @ [DQ],
      ''exit /b 0'']"

text \<open>The here-string \<^verbatim>\<open>$bat\<close>: the lines with the line break between them.\<close>

fun join_lines :: "string \<Rightarrow> string list \<Rightarrow> string" where
  "join_lines eol [] = []"
| "join_lines eol [l] = l"
| "join_lines eol (l # m # ls) = l @ eol @ join_lines eol (m # ls)"

definition bat :: "hook_env \<Rightarrow> string" where
  "bat e = join_lines (here_eol e) bat_lines"

definition targets :: "string list" where
  "targets = [''post-checkout.bat'', ''post-merge.bat'', ''post-rewrite.bat'']"

definition repoRoot :: "hook_env \<Rightarrow> disk \<Rightarrow> hook_failure + string" where
  "repoRoot e d =
     (if \<not> Test_Path_disk d (Join_Path (script_parent e) ''.git'') then
        (case git_toplevel e of
           None \<Rightarrow>
             Inl (EnvironmentError ''Cannot find repo root. Run from inside a Git repo.'')
         | Some out \<Rightarrow> Inr (Trim out))
      else Inr (script_parent e))"

text \<open>The \<^verbatim>\<open>foreach\<close> loop; it stops at the first \<^verbatim>\<open>Set-Content\<close> that fails.\<close>

fun write_hooks :: "hook_env \<Rightarrow> string \<Rightarrow> string list \<Rightarrow> disk \<Rightarrow> hook_failure option \<times> disk" where
  "write_hooks e hooks [] d = (None, d)"
| "write_hooks e hooks (t # ts) d =
     (let p = Join_Path hooks t in
      if can_write e p
      then write_hooks e hooks ts
             (d\<lparr>dfiles := (dfiles d)(p \<mapsto> bat e @ NewLine (hook_platform e))\<rparr>)
      else (Some HookWriteError, d))"

definition install_hooks :: "hook_env \<Rightarrow> disk \<Rightarrow> hook_failure option \<times> disk" where
  "install_hooks e d =
     (case repoRoot e d of
        Inl f \<Rightarrow> (Some f, d)
      | Inr root \<Rightarrow>
          let hooks = Join_Path root (''.git'' @ [BSL] @ ''hooks'') in
          if \<not> Test_Path_disk d hooks
          then (Some (EnvironmentError ''.git/hooks not found (did you clone the repo?)''), d)
          else write_hooks e hooks targets d)"

section \<open>Notions used in the statements\<close>

text \<open>The release that a run sees: the reply to the one metadata query, made for the
  coordinates the Remote Locator resolved.\<close>

definition latest_release :: "params \<Rightarrow> env \<Rightarrow> release option" where
  "latest_release p e =
     (case resolve_v2 p e of
        Inl f \<Rightarrow> None
      | Inr (owner, repo) \<Rightarrow> rest_get e (api_url owner repo))"

definition latest_url :: "params \<Rightarrow> env \<Rightarrow> string" where
  "latest_url p e =
     (case resolve_v2 p e of
        Inl f \<Rightarrow> []
      | Inr (owner, repo) \<Rightarrow> api_url owner repo)"

text \<open>
  The downloaded artifact: the body that the store delivers in full at the download
  address of the release's primary asset, the first asset whose name is \<^verbatim>\<open>-eq\<close> to
  \<^verbatim>\<open>$AssetName\<close>; \<open>None\<close> when there is no such asset or no such body. \<open>downloaded\<close> is
  the artifact of the latest release.
\<close>

definition release_artifact :: "params \<Rightarrow> env \<Rightarrow> release \<Rightarrow> string option" where
  "release_artifact p e rel =
     (case find_asset (assets rel) (AssetName p) of
        None \<Rightarrow> None
      | Some asset \<Rightarrow>
          (case web_get e (browser_download_url asset) of
             Fetched body \<Rightarrow> Some body
           | Broken partial \<Rightarrow> None))"

definition downloaded :: "params \<Rightarrow> env \<Rightarrow> string option" where
  "downloaded p e =
     (case latest_release p e of None \<Rightarrow> None | Some rel \<Rightarrow> release_artifact p e rel)"

text \<open>The staged file holds the artifact of the release.\<close>

definition staged_ok :: "params \<Rightarrow> env \<Rightarrow> release \<Rightarrow> world \<Rightarrow> bool" where
  "staged_ok p e rel w =
     (case release_artifact p e rel of
        None \<Rightarrow> False
      | Some body \<Rightarrow> files w (tmpDownload p) = Some body)"

text \<open>
  Two path strings that name the same directory on Windows: equal up to case and up to
  the choice between slash and backslash, which is how the output of git and the
  paths of PowerShell differ.
\<close>

definition unslash :: "char \<Rightarrow> char" where
  "unslash c = (if c = CHR ''/'' then BSL else c)"

definition same_directory :: "string \<Rightarrow> string \<Rightarrow> bool" where
  "same_directory a b = ps_eq (map unslash a) (map unslash b)"

text \<open>A backup of the replica: a file of the working copy named \<^verbatim>\<open>db.sqlite3.bak.\<close> and
  more.\<close>

fun is_backup :: "path \<Rightarrow> bool" where
  "is_backup (Root n) = (take 15 n = ''db.sqlite3.bak.'')"
| "is_backup (Temp n) = False"

text \<open>
  The three ways a run can go: it stops before the Replacer and no file of the working
  copy has changed; it skips; or it reaches the Replacer with the working copy as it
  was and a staged download.
\<close>

definition run_shape :: "params \<Rightarrow> env \<Rightarrow> world \<Rightarrow> outcome \<Rightarrow> world \<Rightarrow> bool" where
  "run_shape p e w out w' =
     ((\<exists>f. out = Failed f \<and> f \<notin> {CopyError, MoveError, WriteError} \<and>
           (\<forall>m. files w' (Root m) = files w (Root m)))
      \<or> (out = Skipped \<and> files w' = files w)
      \<or> (\<exists>rel w2. latest_release p e = Some rel \<and>
            (\<forall>m. files w2 (Root m) = files w (Root m)) \<and> staged_ok p e rel w2 \<and>
            replace_db p e (tag_name rel) w2 = (out, w')))"

text \<open>Ordinal order of two strings, and the order of two dates in time.\<close>

fun str_less :: "string \<Rightarrow> string \<Rightarrow> bool" where
  "str_less [] [] = False"
| "str_less [] (y # ys) = True"
| "str_less (x # xs) [] = False"
| "str_less (x # xs) (y # ys) =
     ((of_char x :: nat) < of_char y \<or> (x = y \<and> str_less xs ys))"

definition date_key :: "datetime \<Rightarrow> nat list" where
  "date_key d = [year d, month d, day d, hour d, minute d, second d]"

fun key_less :: "nat list \<Rightarrow> nat list \<Rightarrow> bool" where
  "key_less (x # xs) (y # ys) = (x < y \<or> (x = y \<and> key_less xs ys))"
| "key_less xs ys = False"

definition is_digit :: "char \<Rightarrow> bool" where
  "is_digit c = (c \<in> set ''0123456789'')"

definition date_ok :: "datetime \<Rightarrow> bool" where
  "date_ok d = (year d < 10000 \<and> month d < 100 \<and> day d < 100 \<and> hour d < 100 \<and>
                minute d < 100 \<and> second d < 100)"

section \<open>A concrete working copy and release store\<close>

text \<open>
  No explicit owner or repository; the remote is this repository's. The store serves the
  database whose bytes are \<open>NEW\<close>; \<open>digest_NEW\<close> is its SHA-256 digest as
  \<^verbatim>\<open>Get-FileHash\<close> prints it.
\<close>

definition demo_params :: params where
  "demo_params =
     \<lparr>Owner = [], Repo = [],
      AssetName = ''db_release.sqlite3'', ShaAssetName = ''db_release.sha256.txt''\<rparr>"

definition db_url :: string where
  "db_url = ''https://github.com/yoona8030/sencity_backend/releases/download/db_release.sqlite3''"

definition sha_url :: string where
  "sha_url = ''https://github.com/yoona8030/sencity_backend/releases/download/db_release.sha256.txt''"

definition db_asset :: release_asset where
  "db_asset = \<lparr>name = ''db_release.sqlite3'', browser_download_url = db_url\<rparr>"

definition sha_asset :: release_asset where
  "sha_asset = \<lparr>name = ''db_release.sha256.txt'', browser_download_url = sha_url\<rparr>"

definition digest_NEW :: string where
  "digest_NEW = ''A253FF09C5A8678E1FD1962B2C329245E139E45F9CC6CED4E5D7AD42C4108FC0''"

definition digest_new :: string where
  "digest_new = ''a253ff09c5a8678e1fd1962b2c329245e139e45f9cc6ced4e5d7ad42c4108fc0''"

definition digest_old :: string where
  "digest_old = ''099d90cbee62f89e6478e153eb3240efcbe4ac2231bedc3e84549bbeaaba87e8''"

definition demo_clock :: datetime where
  "demo_clock = \<lparr>year = 2025, month = 3, day = 9, hour = 7, minute = 5, second = 0\<rparr>"

definition demo_env :: "release \<Rightarrow> string \<Rightarrow> env" where
  "demo_env rel sha =
     \<lparr>platform = Windows,
      git_remote = GitOutput ''https://github.com/yoona8030/sencity_backend.git'',
      rest_get = (\<lambda>uri. if uri = api_url ''yoona8030'' ''sencity_backend'' then Some rel
                         else None),
      web_get = (\<lambda>uri. if uri = db_url then Fetched ''NEW''
                        else if uri = sha_url then Fetched sha else Broken None),
      file_hash = (\<lambda>content. if content = ''NEW'' then digest_NEW
                            else replicate 64 (CHR ''0'')),
      clock = demo_clock,
      copy_ok = True, move_ok = True, move_keeps_target = True, write_ok = True,
      remove_ok = True\<rparr>"

definition demo_api :: string where
  "demo_api = api_url ''yoona8030'' ''sencity_backend''"

text \<open>Release \<open>v3\<close> has no checksum asset, release \<open>v4\<close> has one.\<close>

definition release_v3 :: release where
  "release_v3 = \<lparr>tag_name = ''v3'', assets = [db_asset]\<rparr>"

definition release_v4 :: release where
  "release_v4 = \<lparr>tag_name = ''v4'', assets = [db_asset, sha_asset]\<rparr>"

text \<open>Checksum files: the right digest and a wrong one as \<^verbatim>\<open>sha256sum\<close> prints them, and
  the right digest as \<^verbatim>\<open>openssl dgst -sha256\<close> prints it.\<close>

definition sha_good :: string where
  "sha_good = digest_new @ ''  db_release.sqlite3'' @ [LF]"

definition sha_bad :: string where
  "sha_bad = digest_old @ ''  db_release.sqlite3'' @ [LF]"

definition sha_openssl :: string where
  "sha_openssl = ''SHA2-256(db_release.sqlite3)= '' @ digest_new @ [LF]"

text \<open>A fresh clone, and a working copy with a replica and a marker.\<close>

definition fresh :: world where
  "fresh = \<lparr>files = Map.empty, requests = []\<rparr>"

definition installed :: "string \<Rightarrow> string \<Rightarrow> world" where
  "installed db marker =
     \<lparr>files = [targetDb \<mapsto> db, versionFile \<mapsto> marker], requests = []\<rparr>"

definition demo_backup :: path where
  "demo_backup = Root ''db.sqlite3.bak.20250309-070500''"

text \<open>The world that variant 1 leaves after its run on the fresh clone.\<close>

definition after_v1 :: world where
  "after_v1 = snd (sync_db_v1 demo_params (demo_env release_v3 []) fresh)"

text \<open>Release \<open>v3\<close> on the store, and a working copy that holds release \<open>v2\<close>; what
  the working copy is after the upgrade, after an upgrade whose marker write failed,
  after an upgrade whose move failed with the replica deleted, and after a run that
  stopped behind the metadata query.\<close>

definition env_v3 :: env where
  "env_v3 = demo_env release_v3 []"

definition old_v2 :: world where
  "old_v2 = installed ''OLD'' (''v2'' @ [CR, LF])"

definition upgraded :: world where
  "upgraded =
     \<lparr>files = [targetDb \<mapsto> ''NEW'', versionFile \<mapsto> ''v3'' @ [CR, LF],
               demo_backup \<mapsto> ''OLD''],
      requests = [RestGet demo_api, WebGet db_url]\<rparr>"

definition half_replaced :: world where
  "half_replaced =
     \<lparr>files = [targetDb \<mapsto> ''NEW'', versionFile \<mapsto> ''v2'' @ [CR, LF],
               demo_backup \<mapsto> ''OLD''],
      requests = [RestGet demo_api, WebGet db_url]\<rparr>"

definition env_v3_no_move :: env where
  "env_v3_no_move = env_v3\<lparr>move_ok := False, move_keeps_target := False\<rparr>"

definition replica_lost :: world where
  "replica_lost =
     \<lparr>files = [versionFile \<mapsto> ''v2'' @ [CR, LF], demo_backup \<mapsto> ''OLD'',
               tmpDownload demo_params \<mapsto> ''NEW''],
      requests = [RestGet demo_api, WebGet db_url]\<rparr>"

definition asked :: world where
  "asked = old_v2\<lparr>requests := [RestGet demo_api]\<rparr>"

text \<open>The same working copy with a backup already at the path of this second.\<close>

definition collide :: world where
  "collide =
     \<lparr>files = [targetDb \<mapsto> ''OLD'', versionFile \<mapsto> ''v2'' @ [CR, LF],
               demo_backup \<mapsto> ''EARLIER''],
      requests = []\<rparr>"

definition later_clock :: datetime where
  "later_clock = \<lparr>year = 2025, month = 11, day = 2, hour = 23, minute = 59, second = 59\<rparr>"

text \<open>The remote of this repository, parameters that name it explicitly, a remote on
  another host, and two remotes of repositories whose name has a dot.\<close>

definition demo_remote :: string where
  "demo_remote = ''https://github.com/yoona8030/sencity_backend.git''"

definition explicit_params :: params where
  "explicit_params = demo_params\<lparr>Owner := ''yoona8030'', Repo := ''sencity_backend''\<rparr>"

definition gitlab_remote :: string where
  "gitlab_remote = ''https://gitlab.com/yoona8030/sencity_backend.git''"

definition dotted_remote :: string where
  "dotted_remote = ''https://github.com/mrdoob/three.js.git''"

definition dotted_ssh_remote :: string where
  "dotted_ssh_remote = ''git@github.com:socketio/socket.io''"

text \<open>Release \<open>v4\<close> with a checksum file that fits and one that does not; the
  scripts in \<^verbatim>\<open>scripts\<close> of a clone at \<^verbatim>\<open>C:\work\sencity_backend\<close>, and the scripts
  kept in \<^verbatim>\<open>C:\tools\scripts\<close> and run inside that clone; a working copy whose marker
  file is empty.\<close>

definition env_v4_good :: env where
  "env_v4_good = demo_env release_v4 sha_good"

definition env_v4_bad :: env where
  "env_v4_bad = demo_env release_v4 sha_bad"

definition stray_location :: location where
  "stray_location =
     \<lparr>toplevel = GitOutput ''C:/work/sencity_backend'',
      PSScriptRoot = ''C:'' @ [BSL] @ ''tools'' @ [BSL] @ ''scripts'',
      PSScriptRoot_parent = ''C:'' @ [BSL] @ ''tools'',
      current_location = ''C:'' @ [BSL] @ ''work'' @ [BSL] @ ''sencity_backend''\<rparr>"

definition empty_marker :: world where
  "empty_marker = installed ''OLD'' []"

definition demo_location :: location where
  "demo_location =
     \<lparr>toplevel = GitOutput ''C:/work/sencity_backend'',
      PSScriptRoot = ''C:'' @ [BSL] @ ''work'' @ [BSL] @ ''sencity_backend'' @ [BSL] @ ''scripts'',
      PSScriptRoot_parent = ''C:'' @ [BSL] @ ''work'' @ [BSL] @ ''sencity_backend'',
      current_location = ''C:'' @ [BSL] @ ''work'' @ [BSL] @ ''sencity_backend''\<rparr>"

text \<open>The hooks directory of a working copy, the file that \<^verbatim>\<open>Set-Content\<close> writes for each
  hook, and the paths of the three hook files.\<close>

definition hooks_dir :: "string \<Rightarrow> string" where
  "hooks_dir root = Join_Path root (''.git'' @ [BSL] @ ''hooks'')"

definition stub :: "hook_env \<Rightarrow> string" where
  "stub e = bat e @ NewLine (hook_platform e)"

definition hook_paths :: "string \<Rightarrow> string set" where
  "hook_paths root = Join_Path (hooks_dir root) ` set targets"

text \<open>
  The script that a stub runs. The command line of the stub is its fourth line, and the
  script is the text between the double quotes. In a batch file \<^verbatim>\<open>%~dp0\<close> stands for
  the directory of the file with a backslash at its end. A path is read segment by
  segment, and a segment \<^verbatim>\<open>..\<close> goes one segment back.
\<close>

definition quoted :: "string \<Rightarrow> string" where
  "quoted s = takeWhile (\<lambda>c. c \<noteq> DQ) (drop 1 (dropWhile (\<lambda>c. c \<noteq> DQ) s))"

definition expand_dp0 :: "string \<Rightarrow> string \<Rightarrow> string" where
  "expand_dp0 dir s = (if take 5 s = ''%~dp0'' then dir @ [BSL] @ drop 5 s else s)"

fun segments :: "string \<Rightarrow> string \<Rightarrow> string list" where
  "segments acc [] = [acc]"
| "segments acc (c # cs) =
     (if c = BSL then acc # segments [] cs else segments (acc @ [c]) cs)"

fun resolve_dots :: "string list \<Rightarrow> string list \<Rightarrow> string list" where
  "resolve_dots seen [] = seen"
| "resolve_dots seen (s # ss) =
     (if s = ''..'' then resolve_dots (butlast seen) ss else resolve_dots (seen @ [s]) ss)"

definition same_file :: "string \<Rightarrow> string \<Rightarrow> bool" where
  "same_file a b =
     (resolve_dots [] (segments [] a) = resolve_dots [] (segments [] b))"

definition stub_script :: "string \<Rightarrow> string" where
  "stub_script hooks = expand_dp0 hooks (quoted (bat_lines ! 3))"

text \<open>A clone with an old stub in one hook file, a working copy without a hooks
  directory, and a directory that is no working copy.\<close>

definition demo_root :: string where
  "demo_root = ''C:/work/sencity_backend''"

definition demo_hook_env :: hook_env where
  "demo_hook_env =
     \<lparr>script_parent = demo_root, git_toplevel = None, here_eol = [CR, LF],
      hook_platform = Windows, can_write = (\<lambda>f. True)\<rparr>"

definition cloned :: disk where
  "cloned =
     \<lparr>dirs = {Join_Path demo_root ''.git'', hooks_dir demo_root},
      dfiles = [Join_Path (hooks_dir demo_root) ''post-merge.bat'' \<mapsto> ''rem old stub'']\<rparr>"

definition no_hooks_dir :: disk where
  "no_hooks_dir = \<lparr>dirs = {Join_Path demo_root ''.git''}, dfiles = Map.empty\<rparr>"

definition no_checkout :: disk where
  "no_checkout = \<lparr>dirs = {demo_root}, dfiles = Map.empty\<rparr>"

section \<open>String facts\<close>

lemma dropWhile_all: "list_all P xs \<Longrightarrow> dropWhile P xs = []"
  by (induction xs) auto

lemma Trim_append_spaces:
  assumes "list_all is_space ws"
  shows "Trim (s @ ws) = Trim s"
proof (cases "list_all is_space s")
  case True
  with assms have "list_all is_space (s @ ws)" by simp
  then have a: "dropWhile is_space (s @ ws) = []" by (rule dropWhile_all)
  from True have b: "dropWhile is_space s = []" by (rule dropWhile_all)
  show ?thesis unfolding Trim_def a b ..
next
  case False
  then obtain x where x: "x \<in> set s" "\<not> is_space x"
    by (auto simp: list_all_iff)
  then have d: "dropWhile is_space (s @ ws) = dropWhile is_space s @ ws"
    by (simp add: dropWhile_append1)
  from assms have "dropWhile is_space (rev ws @ r) = dropWhile is_space r" for r
    by (induction ws rule: rev_induct) auto
  then show ?thesis unfolding Trim_def d by simp
qed

lemma Trim_NewLine: "Trim (t @ NewLine pf) = Trim t"
  by (cases pf) (simp_all add: Trim_append_spaces is_space_def CR_def LF_def)

lemma root_Invoke_WebRequest:
  "Invoke_WebRequest e uri (Temp n) w = (b, w') \<Longrightarrow> files w' (Root m) = files w (Root m)"
  by (auto simp: Invoke_WebRequest_def Let_def split: download.splits option.splits)

lemma root_verify_v1: "verify_v1 p e rel w = (r, w') \<Longrightarrow> files w' (Root m) = files w (Root m)"
  by (auto simp: verify_v1_def shaTmp_def split: option.splits prod.splits bool.splits sum.splits if_splits
      dest: root_Invoke_WebRequest)

lemma root_verify_v2: "verify_v2 p e rel w = (r, w') \<Longrightarrow> files w' (Root m) = files w (Root m)"
  by (auto simp: verify_v2_def shaTmp_def Remove_Item_def tmpDownload_def split: option.splits prod.splits bool.splits sum.splits if_splits
      dest: root_Invoke_WebRequest)

section \<open>What each stage touches\<close>

lemma paths_distinct [simp]:
  "targetDb \<noteq> versionFile" "versionFile \<noteq> targetDb"
  "backupPath e \<noteq> targetDb" "targetDb \<noteq> backupPath e"
  "backupPath e \<noteq> versionFile" "versionFile \<noteq> backupPath e"
  "tmpDownload p \<noteq> targetDb" "tmpDownload p \<noteq> versionFile" "tmpDownload p \<noteq> backupPath e"
  "targetDb \<noteq> tmpDownload p" "versionFile \<noteq> tmpDownload p" "backupPath e \<noteq> tmpDownload p"
  by (simp_all add: targetDb_def versionFile_def backupPath_def tmpDownload_def)

lemma Invoke_WebRequest_True:
  "Invoke_WebRequest e uri out w = (True, w') \<Longrightarrow>
     (\<exists>body. web_get e uri = Fetched body \<and>
        w' = w\<lparr>files := (files w)(out \<mapsto> body), requests := requests w @ [WebGet uri]\<rparr>)"
  by (auto simp: Invoke_WebRequest_def Let_def split: download.splits option.splits)

lemma Invoke_WebRequest_requests:
  "Invoke_WebRequest e uri out w = (b, w') \<Longrightarrow> requests w' = requests w @ [WebGet uri]"
  by (auto simp: Invoke_WebRequest_def Let_def split: download.splits option.splits)

lemma staged_primary:
  assumes "find_asset (assets rel) (AssetName p) = Some asset"
    and "Invoke_WebRequest e (browser_download_url asset) (tmpDownload p) w = (True, w')"
  shows "staged_ok p e rel w'"
  using assms by (auto simp: staged_ok_def release_artifact_def dest!: Invoke_WebRequest_True)

text \<open>The checksum download leaves the staged artifact as it is: when both downloads go
  to the same file, both asset names are the same and both downloads are the same.\<close>

lemma staged_checksum:
  assumes sha: "find_asset (assets rel) (ShaAssetName p) = Some s"
    and dl: "Invoke_WebRequest e (browser_download_url s) (shaTmp p) w = (True, w')"
    and st: "staged_ok p e rel w"
  shows "staged_ok p e rel w'"
proof (cases "shaTmp p = tmpDownload p")
  case False
  with dl st show ?thesis
    by (auto simp: staged_ok_def split: option.splits dest!: Invoke_WebRequest_True)
next
  case True
  then have "ShaAssetName p = AssetName p" by (simp add: shaTmp_def tmpDownload_def)
  with sha have "find_asset (assets rel) (AssetName p) = Some s" by simp
  with dl True show ?thesis
    by (auto simp: staged_ok_def release_artifact_def dest!: Invoke_WebRequest_True)
qed

lemma verify_v1_None:
  "verify_v1 p e rel w = (None, w') \<Longrightarrow> staged_ok p e rel w \<Longrightarrow> staged_ok p e rel w'"
  by (auto simp: verify_v1_def split: option.splits prod.splits bool.splits sum.splits if_splits
      dest: staged_checksum)

lemma verify_v2_None:
  "verify_v2 p e rel w = (None, w') \<Longrightarrow> staged_ok p e rel w \<Longrightarrow> staged_ok p e rel w'"
  by (auto simp: verify_v2_def split: option.splits prod.splits bool.splits sum.splits if_splits
      dest: staged_checksum)

lemma verify_v1_failure:
  "verify_v1 p e rel w = (Some f, w') \<Longrightarrow> f \<in> {DownloadError, ReadError, NullValueError, IntegrityError}"
  by (auto simp: verify_v1_def expected_v1_def split: option.splits prod.splits bool.splits sum.splits if_splits list.splits)

lemma verify_v2_failure:
  "verify_v2 p e rel w = (Some f, w') \<Longrightarrow> f \<in> {DownloadError, ReadError, NullValueError, IntegrityError}"
  by (auto simp: verify_v2_def expected_v2_def Let_def split: option.splits prod.splits bool.splits sum.splits if_splits list.splits)

lemma replace_db_failure:
  "replace_db p e tag w = (Failed f, w') \<Longrightarrow> f \<in> {CopyError, MoveError, WriteError}"
  by (auto simp: replace_db_def split: option.splits prod.splits bool.splits)

lemma replace_db_not_Skipped: "replace_db p e tag w \<noteq> (Skipped, w')"
  by (auto simp: replace_db_def split: option.splits prod.splits bool.splits)

lemma backup_db_Some:
  "backup_db e w = Some w1 \<Longrightarrow>
     requests w1 = requests w \<and>
     files w1 = (case files w targetDb of None \<Rightarrow> files w | Some old \<Rightarrow> (files w)(backupPath e \<mapsto> old))"
  by (auto simp: backup_db_def Copy_Item_def Test_Path_def split: option.splits if_splits)

lemma replace_db_CopyError:
  assumes "replace_db p e tag w = (Failed CopyError, w')"
  shows "w' = w"
  using assms
  by (auto simp: replace_db_def split: option.splits prod.splits bool.splits)

lemma replace_db_MoveError:
  assumes "replace_db p e tag w = (Failed MoveError, w')" and "files w (tmpDownload p) \<noteq> None"
  shows "files w' versionFile = files w versionFile"
    and "files w' targetDb = (if move_keeps_target e then files w targetDb else None)"
    and "files w targetDb \<noteq> None \<Longrightarrow> files w' (backupPath e) = files w targetDb"
    and "\<not> move_ok e"
  using assms
  by (auto simp: replace_db_def Move_Item_def Set_Content_def
      split: option.splits if_splits prod.splits bool.splits dest!: backup_db_Some)

lemma replace_db_WriteError:
  assumes "replace_db p e tag w = (Failed WriteError, w')"
  shows "files w' versionFile = files w versionFile \<and> files w' targetDb = files w (tmpDownload p)
     \<and> files w (tmpDownload p) \<noteq> None"
  using assms
  by (auto simp: replace_db_def Move_Item_def Set_Content_def
      split: option.splits if_splits prod.splits bool.splits dest!: backup_db_Some)

lemma replace_db_Synced:
  assumes "replace_db p e tag w = (Synced, w')"
  shows "files w' versionFile = Some (tag @ NewLine (platform e))"
    and "files w' targetDb = files w (tmpDownload p)"
    and "files w (tmpDownload p) \<noteq> None"
    and "files w targetDb \<noteq> None \<Longrightarrow> files w' (backupPath e) = files w targetDb"
    and "files w targetDb = None \<Longrightarrow> files w' (backupPath e) = files w (backupPath e)"
    and "f \<noteq> targetDb \<Longrightarrow> f \<noteq> versionFile \<Longrightarrow> f \<noteq> backupPath e \<Longrightarrow> f \<noteq> tmpDownload p \<Longrightarrow> files w' f = files w f"
    and "files w' (tmpDownload p) = None"
    and "requests w' = requests w"
  using assms
  by (auto simp: replace_db_def Move_Item_def Set_Content_def
      split: option.splits if_splits prod.splits bool.splits dest!: backup_db_Some)

section \<open>The shape of a run\<close>

lemma resolve_v1_eq_v2: "resolve_v1 p e = resolve_v2 p e"
  by (auto simp: resolve_v1_def resolve_v2_def Let_def split: git_result.splits)

lemma fetch_and_replace_cases:
  assumes run: "fetch_and_replace verify p e rel w = (out, w')"
    and root: "\<And>w1 r w2 m. verify p e rel w1 = (r, w2) \<Longrightarrow> files w2 (Root m) = files w1 (Root m)"
    and fail: "\<And>w1 f w2. verify p e rel w1 = (Some f, w2) \<Longrightarrow> f \<notin> {CopyError, MoveError, WriteError}"
    and stg: "\<And>w1 w2. verify p e rel w1 = (None, w2) \<Longrightarrow> staged_ok p e rel w1 \<Longrightarrow> staged_ok p e rel w2"
  shows "(\<exists>f. out = Failed f \<and> f \<notin> {CopyError, MoveError, WriteError} \<and>
             (\<forall>m. files w' (Root m) = files w (Root m)))
       \<or> (\<exists>w2. (\<forall>m. files w2 (Root m) = files w (Root m)) \<and> staged_ok p e rel w2 \<and>
             replace_db p e (tag_name rel) w2 = (out, w'))"
proof (cases "find_asset (assets rel) (AssetName p)")
  case None
  with run show ?thesis by (auto simp: fetch_and_replace_def)
next
  case (Some asset)
  obtain b w1 where dl: "Invoke_WebRequest e (browser_download_url asset) (tmpDownload p) w = (b, w1)"
    by (cases "Invoke_WebRequest e (browser_download_url asset) (tmpDownload p) w")
  have r1: "files w1 (Root m) = files w (Root m)" for m
    using dl by (auto simp: tmpDownload_def dest: root_Invoke_WebRequest)
  show ?thesis
  proof (cases b)
    case False
    with run Some dl r1 show ?thesis by (auto simp: fetch_and_replace_def)
  next
    case True
    with Some dl have s1: "staged_ok p e rel w1" by (auto dest: staged_primary)
    obtain r w2 where v: "verify p e rel w1 = (r, w2)" by (cases "verify p e rel w1")
    have r2: "files w2 (Root m) = files w (Root m)" for m
      using root [OF v] r1 by simp
    show ?thesis
    proof (cases r)
      case None
      with v s1 have "staged_ok p e rel w2" by (auto dest: stg)
      with run Some dl True v None r2 show ?thesis
        by (auto simp: fetch_and_replace_def)
    next
      case (Some f)
      with v have "f \<notin> {CopyError, MoveError, WriteError}" by (auto dest: fail)
      with run \<open>find_asset (assets rel) (AssetName p) = Some asset\<close> dl True v Some r2 show ?thesis
        by (auto simp: fetch_and_replace_def)
    qed
  qed
qed

lemma fetch_v1_cases:
  "fetch_and_replace verify_v1 p e rel w = (out, w') \<Longrightarrow>
     (\<exists>f. out = Failed f \<and> f \<notin> {CopyError, MoveError, WriteError} \<and>
             (\<forall>m. files w' (Root m) = files w (Root m)))
       \<or> (\<exists>w2. (\<forall>m. files w2 (Root m) = files w (Root m)) \<and> staged_ok p e rel w2 \<and>
             replace_db p e (tag_name rel) w2 = (out, w'))"
  by (erule fetch_and_replace_cases) (auto dest: root_verify_v1 verify_v1_failure verify_v1_None)

lemma fetch_v2_cases:
  "fetch_and_replace verify_v2 p e rel w = (out, w') \<Longrightarrow>
     (\<exists>f. out = Failed f \<and> f \<notin> {CopyError, MoveError, WriteError} \<and>
             (\<forall>m. files w' (Root m) = files w (Root m)))
       \<or> (\<exists>w2. (\<forall>m. files w2 (Root m) = files w (Root m)) \<and> staged_ok p e rel w2 \<and>
             replace_db p e (tag_name rel) w2 = (out, w'))"
  by (erule fetch_and_replace_cases) (auto dest: root_verify_v2 verify_v2_failure verify_v2_None)

lemma sync_db_v1_shape:
  assumes "sync_db_v1 p e w = (out, w')"
  shows "run_shape p e w out w'"
proof (cases "resolve_v2 p e")
  case (Inl f)
  with assms show ?thesis
    by (auto simp: sync_db_v1_def resolve_v1_eq_v2 run_shape_def resolve_v2_def Let_def split: if_splits)
next
  case (Inr pair)
  obtain owner repo where pair: "pair = (owner, repo)" by (cases pair)
  show ?thesis
  proof (cases "rest_get e (api_url owner repo)")
    case None
    with assms Inr pair show ?thesis
      by (auto simp: sync_db_v1_def resolve_v1_eq_v2 run_shape_def Invoke_RestMethod_def)
  next
    case (Some rel)
    let ?w1 = "w\<lparr>requests := requests w @ [RestGet (api_url owner repo)]\<rparr>"
    have lr: "latest_release p e = Some rel"
      using Inr pair Some by (simp add: latest_release_def)
    show ?thesis
    proof (cases "shouldSkip_v1 (tag_name rel) ?w1")
      case True
      with assms Inr pair Some show ?thesis
        by (auto simp: sync_db_v1_def resolve_v1_eq_v2 run_shape_def Invoke_RestMethod_def)
    next
      case False
      with assms Inr pair Some have "fetch_and_replace verify_v1 p e rel ?w1 = (out, w')"
        by (auto simp: sync_db_v1_def resolve_v1_eq_v2 Invoke_RestMethod_def)
      from fetch_v1_cases [OF this] lr show ?thesis
        by (auto simp: run_shape_def)
    qed
  qed
qed

lemma sync_db_v2_shape:
  assumes "sync_db_v2 p e w = (out, w')"
  shows "run_shape p e w out w'"
proof (cases "resolve_v2 p e")
  case (Inl f)
  with assms show ?thesis
    by (auto simp: sync_db_v2_def run_shape_def resolve_v2_def Let_def split: if_splits)
next
  case (Inr pair)
  obtain owner repo where pair: "pair = (owner, repo)" by (cases pair)
  show ?thesis
  proof (cases "rest_get e (api_url owner repo)")
    case None
    with assms Inr pair show ?thesis
      by (auto simp: sync_db_v2_def run_shape_def Invoke_RestMethod_def)
  next
    case (Some rel)
    let ?w1 = "w\<lparr>requests := requests w @ [RestGet (api_url owner repo)]\<rparr>"
    have lr: "latest_release p e = Some rel"
      using Inr pair Some by (simp add: latest_release_def)
    show ?thesis
    proof (cases "localTag_v2 ?w1")
      case (Inl f)
      then have "f = NullValueError"
        by (auto simp: localTag_v2_def split: option.splits)
      with assms Inr pair Some Inl show ?thesis
        by (auto simp: sync_db_v2_def run_shape_def Invoke_RestMethod_def)
    next
      case (Inr localTag)
      show ?thesis
      proof (cases "shouldSkip_v2 (tag_name rel) localTag ?w1")
        case True
        with assms \<open>resolve_v2 p e = Inr pair\<close> pair Some Inr show ?thesis
          by (auto simp: sync_db_v2_def run_shape_def Invoke_RestMethod_def)
      next
        case False
        with assms \<open>resolve_v2 p e = Inr pair\<close> pair Some Inr
        have "fetch_and_replace verify_v2 p e rel ?w1 = (out, w')"
          by (auto simp: sync_db_v2_def Invoke_RestMethod_def)
        from fetch_v2_cases [OF this] lr show ?thesis
          by (auto simp: run_shape_def)
      qed
    qed
  qed
qed

section \<open>Evaluating the concrete runs\<close>

lemma demo_env_sel [simp]:
  "platform (demo_env rel sha) = Windows"
  "git_remote (demo_env rel sha) = GitOutput ''https://github.com/yoona8030/sencity_backend.git''"
  "rest_get (demo_env rel sha) uri = (if uri = demo_api then Some rel else None)"
  "web_get (demo_env rel sha) uri =
     (if uri = db_url then Fetched ''NEW'' else if uri = sha_url then Fetched sha else Broken None)"
  "file_hash (demo_env rel sha) content =
     (if content = ''NEW'' then digest_NEW else replicate 64 (CHR ''0''))"
  "clock (demo_env rel sha) = demo_clock"
  "copy_ok (demo_env rel sha)" "move_ok (demo_env rel sha)" "move_keeps_target (demo_env rel sha)"
  "write_ok (demo_env rel sha)" "remove_ok (demo_env rel sha)"
  by (simp_all add: demo_env_def demo_api_def)

lemma demo_params_sel [simp]:
  "Owner demo_params = []" "Repo demo_params = []"
  "AssetName demo_params = ''db_release.sqlite3''"
  "ShaAssetName demo_params = ''db_release.sha256.txt''"
  by (simp_all add: demo_params_def)

lemma demo_parse:
  "Parse_GitRemote ''https://github.com/yoona8030/sencity_backend.git'' =
     (''yoona8030'', ''sencity_backend'')"
  by code_simp

lemma demo_resolve [simp]:
  "resolve_v2 demo_params (demo_env rel sha) = Inr (''yoona8030'', ''sencity_backend'')"
  by (simp add: resolve_v2_def demo_parse)

lemma demo_api_url [simp]: "api_url ''yoona8030'' ''sencity_backend'' = demo_api"
  by (simp add: demo_api_def)

lemma demo_urls [simp]: "sha_url \<noteq> db_url" "db_url \<noteq> sha_url"
  by (simp_all add: db_url_def sha_url_def)

lemma demo_backupPath [simp]: "backupPath (demo_env rel sha) = demo_backup"
  by (simp add: backupPath_def demo_backup_def demo_clock_def Get_Date_Format_def four_digits_def two_digits_def digit_def)

lemma demo_paths [simp]:
  "demo_backup \<noteq> targetDb" "demo_backup \<noteq> versionFile" "targetDb \<noteq> demo_backup" "versionFile \<noteq> demo_backup"
  "tmpDownload demo_params \<noteq> demo_backup"  "demo_backup \<noteq> tmpDownload demo_params"
  "tmpDownload demo_params \<noteq> shaTmp demo_params" "shaTmp demo_params \<noteq> tmpDownload demo_params"
  "shaTmp demo_params \<noteq> targetDb" "shaTmp demo_params \<noteq> versionFile" "shaTmp demo_params \<noteq> demo_backup"
  "targetDb \<noteq> shaTmp demo_params" "versionFile \<noteq> shaTmp demo_params" "demo_backup \<noteq> shaTmp demo_params"
  by (simp_all add: demo_backup_def targetDb_def versionFile_def tmpDownload_def shaTmp_def)

lemmas run_defs =
  sync_db_v1_def sync_db_v2_def resolve_v1_eq_v2 Invoke_RestMethod_def
  localTag_v1_def localTag_v2_def shouldSkip_v1_def shouldSkip_v2_def Test_Path_def
  fetch_and_replace_def find_asset_def Invoke_WebRequest_def verify_v1_def verify_v2_def
  replace_db_def backup_db_def Move_Item_def Copy_Item_def Set_Content_def Remove_Item_def
  Get_Content_Raw_def release_v3_def release_v4_def db_asset_def sha_asset_def
  fresh_def installed_def

lemma ps_eq_v3 [simp]: "ps_eq ''db_release.sqlite3'' ''db_release.sqlite3''"
  "\<not> ps_eq ''db_release.sqlite3'' ''db_release.sha256.txt''"
  "\<not> ps_eq ''db_release.sha256.txt'' ''db_release.sqlite3''"
  "ps_eq ''db_release.sha256.txt'' ''db_release.sha256.txt''"
  "\<not> ps_eq ''v3'' []" "\<not> ps_eq ''v4'' []" "ps_eq ''v3'' ''v3''"
  "\<not> ps_eq ''v3'' [CHR ''v'', CHR ''3'', CR, LF]" "\<not> ps_eq ''v3'' ''v2''" "\<not> ps_eq ''v4'' ''v3''"
  by (simp_all add: ps_eq_def ToLower_def lower_char_def CR_def LF_def)

lemma Trim_v [simp]:
  "Trim [CHR ''v'', CHR ''3'', CR, LF] = ''v3''" "Trim [CHR ''v'', CHR ''2'', CR, LF] = ''v2''"
  by (simp_all add: Trim_def is_space_def CR_def LF_def)

lemma run_v1_fresh:
  "sync_db_v1 demo_params (demo_env release_v3 []) fresh =
     (Synced, \<lparr>files = [targetDb \<mapsto> ''NEW'', versionFile \<mapsto> ''v3'' @ [CR, LF]],
               requests = [RestGet demo_api, WebGet db_url]\<rparr>)"
  by (auto simp: run_defs fun_eq_iff)

lemma run_v1_again:
  "sync_db_v1 demo_params (demo_env release_v3 []) (installed ''NEW'' (''v3'' @ [CR, LF])) =
     (Synced, \<lparr>files = [targetDb \<mapsto> ''NEW'', versionFile \<mapsto> ''v3'' @ [CR, LF], demo_backup \<mapsto> ''NEW''],
               requests = [RestGet demo_api, WebGet db_url]\<rparr>)"
  by (auto simp: run_defs fun_eq_iff)

lemma run_v2_again:
  "sync_db_v2 demo_params (demo_env release_v3 []) (installed ''NEW'' (''v3'' @ [CR, LF])) =
     (Skipped, \<lparr>files = [targetDb \<mapsto> ''NEW'', versionFile \<mapsto> ''v3'' @ [CR, LF]],
               requests = [RestGet demo_api]\<rparr>)"
  by (auto simp: run_defs fun_eq_iff)

section \<open>Version marker: read after write\<close>

lemma latest_release_Some:
  "latest_release p e = Some rel \<Longrightarrow>
     \<exists>owner repo. resolve_v2 p e = Inr (owner, repo) \<and> rest_get e (api_url owner repo) = Some rel
        \<and> latest_url p e = api_url owner repo"
  by (auto simp: latest_release_def latest_url_def split: sum.splits)

lemma marker_read_v2:
  assumes "Trim t = t" and "Set_Content e versionFile t w = Some w'"
  shows "localTag_v2 w' = Inr t"
proof -
  from assms(2) have "files w' versionFile = Some (t @ NewLine (platform e))"
    by (auto simp: Set_Content_def split: if_splits)
  moreover have "t @ NewLine (platform e) \<noteq> []"
    by (cases "platform e") simp_all
  ultimately show ?thesis
    using assms(1) by (simp add: localTag_v2_def Get_Content_Raw_def Trim_NewLine)
qed

lemma marker_read_v1:
  assumes "Set_Content e versionFile t w = Some w'"
  shows "localTag_v1 w' = Some (t @ NewLine (platform e))"
proof -
  from assms have "files w' versionFile = Some (t @ NewLine (platform e))"
    by (auto simp: Set_Content_def split: if_splits)
  moreover have "t @ NewLine (platform e) \<noteq> []"
    by (cases "platform e") simp_all
  ultimately show ?thesis
    by (simp add: localTag_v1_def Get_Content_Raw_def)
qed

text \<open>
  Claim C10, on variant 1. The claim: a tag without surrounding white space that the
  Replacer writes into the marker is read back unchanged by the next run, because the
  reader strips what the writer appends. Variant 2 does so (\<open>marker_read_v2\<close>). Variant 1
  reads the marker with \<^verbatim>\<open>Get-Content -Raw\<close> and no \<^verbatim>\<open>Trim\<close>: after \<open>v3\<close> is written, it
  reads \<open>v3\<close> followed by CR LF, which is not the tag.
\<close>

theorem marker_read_after_write_v1:
  "Set_Content (demo_env release_v3 []) versionFile ''v3'' fresh =
     Some \<lparr>files = [versionFile \<mapsto> ''v3'' @ [CR, LF]], requests = []\<rparr> \<and>
   localTag_v1 \<lparr>files = [versionFile \<mapsto> ''v3'' @ [CR, LF]], requests = []\<rparr> = Some (''v3'' @ [CR, LF]) \<and>
   ''v3'' @ [CR, LF] \<noteq> ''v3'' \<and>
   localTag_v2 \<lparr>files = [versionFile \<mapsto> ''v3'' @ [CR, LF]], requests = []\<rparr> = Inr ''v3''"
  by (simp add: Set_Content_def fresh_def localTag_v1_def localTag_v2_def Get_Content_Raw_def)

section \<open>Skip\<close>

lemma skip_v2:
  assumes "latest_release p e = Some rel"
    and "files w versionFile = Some c" and "c \<noteq> []"
    and "ps_eq (tag_name rel) (Trim c)" and "files w targetDb \<noteq> None"
  shows "sync_db_v2 p e w = (Skipped, w\<lparr>requests := requests w @ [RestGet (latest_url p e)]\<rparr>)"
proof -
  from latest_release_Some [OF assms(1)] obtain owner repo where
    "resolve_v2 p e = Inr (owner, repo)" "rest_get e (api_url owner repo) = Some rel"
    "latest_url p e = api_url owner repo" by blast
  with assms(2-) show ?thesis
    by (simp add: sync_db_v2_def Invoke_RestMethod_def localTag_v2_def Get_Content_Raw_def
        shouldSkip_v2_def Test_Path_def)
qed

lemma sync_twice_v2:
  assumes "latest_release p e = Some rel"
    and "files w versionFile = Some c" and "c \<noteq> []"
    and "ps_eq (tag_name rel) (Trim c)" and "files w targetDb \<noteq> None"
  shows "fst (sync_db_v2 p e w) = Skipped \<and> exit_code (fst (sync_db_v2 p e w)) = 0 \<and>
         files (snd (sync_db_v2 p e w)) = files w \<and>
         requests (snd (sync_db_v2 p e w)) = requests w @ [RestGet (latest_url p e)] \<and>
         fst (sync_db_v2 p e (snd (sync_db_v2 p e w))) = Skipped \<and>
         files (snd (sync_db_v2 p e (snd (sync_db_v2 p e w)))) = files w"
proof -
  let ?w1 = "w\<lparr>requests := requests w @ [RestGet (latest_url p e)]\<rparr>"
  have 1: "sync_db_v2 p e w = (Skipped, ?w1)" using assms by (rule skip_v2)
  have 2: "sync_db_v2 p e ?w1 = (Skipped, ?w1\<lparr>requests := requests ?w1 @ [RestGet (latest_url p e)]\<rparr>)"
    using assms by (intro skip_v2) simp_all
  show ?thesis by (simp add: 1 2)
qed

text \<open>
  Claim C2, on variant 1. The claim: when the remote tag equals the stored marker tag and
  the replica exists, the run makes the metadata query only, changes no file and exits
  with 0, so that two runs in a row with no new release leave the same files. Variant 2
  does so (\<open>skip_v2\<close>, \<open>sync_twice_v2\<close>). Variant 1, run on a fresh clone and then again
  on what it left, with release \<open>v3\<close> on the store both times, does not skip the second
  time: it downloads the asset again and adds a backup file.
\<close>

theorem sync_twice_v1:
  "fst (sync_db_v1 demo_params (demo_env release_v3 []) fresh) = Synced \<and>
   files after_v1 = [targetDb \<mapsto> ''NEW'', versionFile \<mapsto> ''v3'' @ [CR, LF]] \<and>
   fst (sync_db_v1 demo_params (demo_env release_v3 []) after_v1) = Synced \<and>
   requests (snd (sync_db_v1 demo_params (demo_env release_v3 []) after_v1)) =
     [RestGet demo_api, WebGet db_url, RestGet demo_api, WebGet db_url] \<and>
   files (snd (sync_db_v1 demo_params (demo_env release_v3 []) after_v1)) demo_backup = Some ''NEW'' \<and>
   files after_v1 demo_backup = None \<and>
   fst (sync_db_v2 demo_params (demo_env release_v3 []) after_v1) = Skipped"
proof -
  have a: "after_v1 = \<lparr>files = [targetDb \<mapsto> ''NEW'', versionFile \<mapsto> ''v3'' @ [CR, LF]],
               requests = [RestGet demo_api, WebGet db_url]\<rparr>"
    by (simp add: after_v1_def run_v1_fresh)
  have b: "sync_db_v1 demo_params (demo_env release_v3 []) after_v1 =
     (Synced, \<lparr>files = [targetDb \<mapsto> ''NEW'', versionFile \<mapsto> ''v3'' @ [CR, LF], demo_backup \<mapsto> ''NEW''],
               requests = [RestGet demo_api, WebGet db_url, RestGet demo_api, WebGet db_url]\<rparr>)"
    unfolding a by (auto simp: run_defs fun_eq_iff)
  have c: "fst (sync_db_v2 demo_params (demo_env release_v3 []) after_v1) = Skipped"
    unfolding a by (auto simp: run_defs)
  show ?thesis
    by (simp add: run_v1_fresh b c) (simp add: a)
qed

section \<open>Checksum parsing\<close>

lemma is_hex_not_eol [simp]: "\<not> is_hex CR" "\<not> is_hex LF" "\<not> is_hex (CHR '' '')"
  by (simp_all add: is_hex_def CR_def LF_def)

lemma is_hex_not_space: "is_hex c \<Longrightarrow> \<not> is_space c"
  by (auto simp: is_hex_def is_space_def)

lemma hex64_here_sep:
  assumes "\<not> is_hex c"
  shows "hex64_here (l @ c # r) = hex64_here l"
    and "hex64_here l \<Longrightarrow> take 64 (l @ c # r) = take 64 l"
proof -
  show "hex64_here (l @ c # r) = hex64_here l"
  proof (cases "64 \<le> length l")
    case True
    then show ?thesis by (simp add: hex64_here_def)
  next
    case False
    then obtain k where "64 - length l = Suc k" by (cases "64 - length l") auto
    then have "c \<in> set (take 64 (l @ c # r))" by simp
    with assms have "\<not> list_all is_hex (take 64 (l @ c # r))"
      by (auto simp: list_all_iff)
    with False show ?thesis by (simp add: hex64_here_def)
  qed
  show "hex64_here l \<Longrightarrow> take 64 (l @ c # r) = take 64 l"
    by (simp add: hex64_here_def)
qed

lemma first_hex64_sep:
  "\<not> is_hex c \<Longrightarrow>
     first_hex64 (l @ c # r) = (case first_hex64 l of Some m \<Rightarrow> Some m | None \<Rightarrow> first_hex64 r)"
proof (induction l)
  case Nil
  then have "\<not> hex64_here (c # r)"
    by (auto simp: hex64_here_def list_all_iff)
  then show ?case by simp
next
  case (Cons x l)
  from hex64_here_sep [OF Cons.prems, of "x # l" r] Cons show ?case
    by auto
qed

lemma Select_String_ReadLines:
  "Select_String_First (ReadLines acc s) = first_hex64 (acc @ s)"
proof (induction acc s rule: ReadLines.induct)
  case (1 acc)
  then show ?case by (simp split: option.splits)
next
  case (2 acc c)
  then show ?case by (auto simp: first_hex64_sep split: option.splits)
next
  case (3 acc c d cs)
  have lf: "first_hex64 (LF # cs) = first_hex64 cs"
    by (simp add: hex64_here_def)
  show ?case
  proof (cases "c = CR \<and> d = LF")
    case True
    with 3 show ?thesis
      by (simp add: first_hex64_sep lf del: first_hex64.simps split: option.splits)
  next
    case False
    note outer = False
    show ?thesis
    proof (cases "c = CR \<or> c = LF")
      case True
      with outer 3 have "Select_String_First (ReadLines [] (d # cs)) = first_hex64 (d # cs)"
        by (simp del: first_hex64.simps)
      with outer True show ?thesis
        by (auto simp: first_hex64_sep simp del: first_hex64.simps split: option.splits)
    next
      case False
      with outer 3 show ?thesis
        by (simp del: first_hex64.simps)
    qed
  qed
qed

lemma expected_v2_clean:
  "c \<noteq> [] \<Longrightarrow> hex64_only (ToLower (Trim c)) \<Longrightarrow> expected_v2 c = Inr (ToLower (Trim c))"
  by (simp add: expected_v2_def Get_Content_Raw_def)

lemma expected_v2_search:
  "c \<noteq> [] \<Longrightarrow> \<not> hex64_only (ToLower (Trim c)) \<Longrightarrow>
     expected_v2 c = Inr (case first_hex64 c of Some m \<Rightarrow> ToLower m | None \<Rightarrow> ToLower (Trim c))"
  using Select_String_ReadLines [of "[]" c]
  by (simp add: expected_v2_def Get_Content_Raw_def split: option.splits)

lemma lower_char_cases:
  "lower_char c = c \<or>
   (c \<in> set ''ABCDEFGHIJKLMNOPQRSTUVWXYZ'' \<and> lower_char c \<in> set ''abcdefghijklmnopqrstuvwxyz'')"
proof (cases "map_of (zip ''ABCDEFGHIJKLMNOPQRSTUVWXYZ'' ''abcdefghijklmnopqrstuvwxyz'') c")
  case None
  then show ?thesis by (simp only: lower_char_def option.case) simp
next
  case (Some l)
  then have "(c, l) \<in> set (zip ''ABCDEFGHIJKLMNOPQRSTUVWXYZ'' ''abcdefghijklmnopqrstuvwxyz'')"
    by (rule map_of_SomeD)
  then have "c \<in> set ''ABCDEFGHIJKLMNOPQRSTUVWXYZ''" "l \<in> set ''abcdefghijklmnopqrstuvwxyz''"
    by (rule set_zip_leftD, rule set_zip_rightD)
  moreover have "lower_char c = l" using Some by (simp only: lower_char_def option.case)
  ultimately show ?thesis by (simp only: simp_thms)
qed

lemma upper_not_space: "c \<in> set ''ABCDEFGHIJKLMNOPQRSTUVWXYZ'' \<Longrightarrow> \<not> is_space c"
  by (auto simp: is_space_def)

lemma lower_not_space: "c \<in> set ''abcdefghijklmnopqrstuvwxyz'' \<Longrightarrow> \<not> is_space c"
  by (auto simp: is_space_def)

lemma lower_char_space [simp]: "is_space (lower_char c) = is_space c"
  using lower_char_cases [of c]
proof
  assume "lower_char c = c"
  then show ?thesis by (simp only:)
next
  assume a: "c \<in> set ''ABCDEFGHIJKLMNOPQRSTUVWXYZ'' \<and>
             lower_char c \<in> set ''abcdefghijklmnopqrstuvwxyz''"
  from a have "\<not> is_space c" by (intro upper_not_space) (rule conjunct1)
  moreover from a have "\<not> is_space (lower_char c)" by (intro lower_not_space) (rule conjunct2)
  ultimately show ?thesis by (simp only: simp_thms)
qed

lemma lower_char_hex [simp]:
  assumes "is_hex c"
  shows "is_hex (lower_char c)"
proof -
  have "\<forall>x\<in>set ''0123456789abcdefABCDEF''. is_hex (lower_char x)"
    by (simp add: lower_char_def is_hex_def)
  moreover from assms have "c \<in> set ''0123456789abcdefABCDEF''"
    by (simp only: is_hex_def)
  ultimately show ?thesis by (rule bspec)
qed

lemma dropWhile_hd: "xs \<noteq> [] \<Longrightarrow> \<not> P (hd xs) \<Longrightarrow> dropWhile P xs = xs"
  by (cases xs) auto

lemma Trim_last: "Trim s \<noteq> [] \<Longrightarrow> \<not> is_space (last (Trim s))"
proof -
  assume ne: "Trim s \<noteq> []"
  let ?d = "dropWhile is_space (rev (dropWhile is_space s))"
  from ne have "?d \<noteq> []" by (simp add: Trim_def)
  then have "\<not> is_space (hd ?d)" by (rule hd_dropWhile)
  moreover have "last (Trim s) = hd ?d"
    using \<open>?d \<noteq> []\<close> by (simp add: Trim_def last_rev)
  ultimately show ?thesis by simp
qed

text \<open>A text that starts with a run \<open>h\<close> of characters that are no white space keeps
  \<open>h\<close> at its head when it is trimmed.\<close>

lemma Trim_keeps_head:
  assumes "h \<noteq> []" and "\<forall>x\<in>set h. \<not> is_space x"
  shows "\<exists>t. Trim (h @ r) = h @ t"
proof -
  from assms have hd: "\<not> is_space (hd (h @ r))" by (cases h) auto
  with assms(1) have d: "dropWhile is_space (h @ r) = h @ r"
    by (intro dropWhile_hd) auto
  from assms have "\<not> is_space (hd (rev h))"
    by (simp add: hd_rev)
  with assms(1) have dh: "dropWhile is_space (rev h) = rev h"
    by (intro dropWhile_hd) auto
  have "\<exists>z. dropWhile is_space (rev r @ rev h) = z @ rev h"
  proof (cases "\<forall>x\<in>set (rev r). is_space x")
    case True
    then have "dropWhile is_space (rev r @ rev h) = dropWhile is_space (rev h)"
      by (intro dropWhile_append2) auto
    with dh show ?thesis by auto
  next
    case False
    then obtain x where "x \<in> set (rev r)" "\<not> is_space x" by blast
    then have "dropWhile is_space (rev r @ rev h) = dropWhile is_space (rev r) @ rev h"
      by (rule dropWhile_append1)
    then show ?thesis by blast
  qed
  then obtain z where "dropWhile is_space (rev r @ rev h) = z @ rev h" ..
  then have "Trim (h @ r) = h @ rev z"
    by (simp add: Trim_def d)
  then show ?thesis ..
qed

lemma first_hex64_leading:
  assumes "length h = 64" and "list_all is_hex h"
  shows "first_hex64 (h @ r) = Some h"
proof -
  from assms(1) obtain x h' where h: "h = x # h'" by (cases h) auto
  have "hex64_here (h @ r)" using assms by (simp add: hex64_here_def)
  moreover have "take 64 (h @ r) = h" using assms(1) by simp
  ultimately show ?thesis unfolding h by simp
qed

text \<open>The checksum file of \<^verbatim>\<open>sha256sum\<close>: 64 hexadecimal digits, a space, and anything
  after it. Variant 2 extracts the digits, in lower case.\<close>

lemma expected_v2_leading:
  assumes len: "length h = 64" and hex: "list_all is_hex h"
  shows "expected_v2 (h @ CHR '' '' # rest) = Inr (ToLower h)"
proof -
  let ?c = "h @ CHR '' '' # rest"
  have ne: "?c \<noteq> []" by simp
  from len have hne: "h \<noteq> []" by auto
  from hex have nsp: "\<forall>x\<in>set h. \<not> is_space x"
    by (auto simp: list_all_iff dest: is_hex_not_space)
  from Trim_keeps_head [OF hne nsp] obtain t where t: "Trim ?c = h @ t" ..
  have fh: "first_hex64 ?c = Some h" using len hex by (rule first_hex64_leading)
  show ?thesis
  proof (cases "hex64_only (ToLower (Trim ?c))")
    case False
    with ne fh show ?thesis by (simp add: expected_v2_search)
  next
    case True
    then have "at_end (drop 64 (ToLower (h @ t)))" by (simp add: hex64_only_def t)
    with len have e: "at_end (ToLower t)" by (simp add: ToLower_def)
    have "t = []"
    proof (rule ccontr)
      assume "t \<noteq> []"
      with e obtain x where x: "t = [x]" "lower_char x = LF"
        by (cases t) (auto simp: at_end_def ToLower_def)
      then have "is_space (lower_char x)" by (simp add: is_space_def LF_def)
      then have "is_space x" by simp
      moreover from Trim_last [of ?c] t x have "\<not> is_space x" by simp
      ultimately show False by simp
    qed
    with t True ne show ?thesis by (simp add: expected_v2_clean)
  qed
qed

lemma ReadLines_step:
  "c \<noteq> CR \<Longrightarrow> c \<noteq> LF \<Longrightarrow> ReadLines acc (c # s) = ReadLines (acc @ [c]) s"
  by (cases s) simp_all

lemma ReadLines_run:
  "\<forall>x\<in>set h. x \<noteq> CR \<and> x \<noteq> LF \<Longrightarrow> ReadLines acc (h @ s) = ReadLines (acc @ h) s"
  by (induction h arbitrary: acc) (simp_all add: ReadLines_step)

lemma ReadLines_first:
  "acc \<noteq> [] \<Longrightarrow> \<exists>t ls. ReadLines acc s = (acc @ t) # ls"
  by (induction acc s rule: ReadLines.induct) auto

text \<open>Variant 1 extracts the same digits, as they are written.\<close>

lemma expected_v1_leading:
  assumes len: "length h = 64" and hex: "list_all is_hex h"
  shows "expected_v1 (h @ CHR '' '' # rest) = Inr h"
proof -
  from len have hne: "h \<noteq> []" by auto
  have "CHR '' '' \<noteq> CR" "CHR '' '' \<noteq> LF" by (simp_all add: CR_def LF_def)
  with hex have noeol: "\<forall>x\<in>set (h @ '' ''). x \<noteq> CR \<and> x \<noteq> LF"
    using is_hex_not_eol by (auto simp: list_all_iff)
  from hex have nosp: "\<forall>x\<in>set h. x \<noteq> CHR '' ''"
    by (auto simp: list_all_iff)
  from hex have nsp: "\<forall>x\<in>set h. \<not> is_space x"
    by (auto simp: list_all_iff dest: is_hex_not_space)
  have "ReadLines [] ((h @ '' '') @ rest) = ReadLines ([] @ (h @ '' '')) rest"
    using noeol by (rule ReadLines_run)
  moreover obtain t ls where "ReadLines (h @ '' '') rest = ((h @ '' '') @ t) # ls"
    using ReadLines_first [of "h @ '' ''" rest] by auto
  ultimately have l: "ReadLines [] (h @ CHR '' '' # rest) = (h @ CHR '' '' # t) # ls"
    by simp
  have tw: "takeWhile (\<lambda>c. c \<noteq> CHR '' '') (h @ CHR '' '' # t) = h"
    using nosp by (simp add: takeWhile_append2)
  from Trim_keeps_head [OF hne nsp, of "[]"] obtain u where u: "Trim h = h @ u" by auto
  have "length (dropWhile is_space (rev (dropWhile is_space h))) \<le> length (rev (dropWhile is_space h))"
    by (rule length_dropWhile_le)
  also have "\<dots> \<le> length h" by (simp add: length_dropWhile_le)
  finally have "length (Trim h) \<le> length h" by (simp add: Trim_def)
  with u have "Trim h = h" by simp
  with l tw show ?thesis by (simp add: expected_v1_def)
qed

section \<open>Integrity gate\<close>

lemma expected_v2_failure: "expected_v2 c = Inl f \<Longrightarrow> f = NullValueError"
  by (auto simp: expected_v2_def Let_def split: option.splits if_splits)

lemma expected_v1_failure: "expected_v1 c = Inl f \<Longrightarrow> f = NullValueError"
  by (auto simp: expected_v1_def split: list.splits)

text \<open>Variant 2: a run that ends with an integrity failure has removed the staged
  artifact, when \<^verbatim>\<open>Remove-Item\<close> works, and has changed no file of the working copy.\<close>

lemma verify_v2_IntegrityError:
  assumes "verify_v2 p e rel w = (Some IntegrityError, w')" and "remove_ok e"
  shows "files w' (tmpDownload p) = None"
  using assms
  by (auto simp: verify_v2_def Remove_Item_def
      split: option.splits prod.splits bool.splits sum.splits if_splits
      dest: expected_v2_failure)

lemma fetch_v2_IntegrityError:
  assumes "fetch_and_replace verify_v2 p e rel w = (Failed IntegrityError, w')" and "remove_ok e"
  shows "files w' (tmpDownload p) = None"
  using assms
  by (auto simp: fetch_and_replace_def
      split: option.splits prod.splits bool.splits
      dest: verify_v2_IntegrityError replace_db_failure)

lemma integrity_failure_v2:
  assumes run: "sync_db_v2 p e w = (Failed IntegrityError, w')" and rm: "remove_ok e"
  shows "files w' (tmpDownload p) = None \<and> (\<forall>m. files w' (Root m) = files w (Root m))"
proof
  from run have "\<exists>rel w1. fetch_and_replace verify_v2 p e rel w1 = (Failed IntegrityError, w')"
    by (auto simp: sync_db_v2_def Invoke_RestMethod_def localTag_v2_def resolve_v2_def Let_def
        split: sum.splits prod.splits option.splits if_splits)
  then show "files w' (tmpDownload p) = None"
    using rm by (auto dest: fetch_v2_IntegrityError)
  from sync_db_v2_shape [OF run] show "\<forall>m. files w' (Root m) = files w (Root m)"
    by (auto simp: run_shape_def dest: replace_db_failure)
qed

text \<open>Variant 2: a digest that differs from the expected one is an integrity failure.\<close>

lemma mismatch_v2:
  assumes "find_asset (assets rel) (ShaAssetName p) = Some shaAsset"
    and "web_get e (browser_download_url shaAsset) = Fetched content"
    and "expected_v2 content = Inr expected"
    and "files w (tmpDownload p) = Some artifact" and "tmpDownload p \<noteq> shaTmp p"
    and "\<not> ps_eq expected (actual_hash e artifact)"
  shows "fst (verify_v2 p e rel w) = Some IntegrityError"
  using assms
  by (simp add: verify_v2_def Invoke_WebRequest_def)

text \<open>
  Claim C3, on variant 1. The claim: when the digest of the staged artifact differs from
  the expected digest of a present checksum asset, the run fails with an integrity
  error, deletes the staged artifact and never reaches the Replacer. Variant 2 does so
  (\<open>mismatch_v2\<close>, \<open>integrity_failure_v2\<close>). Variant 1 fails and leaves the replica and
  the marker alone, but it has no \<^verbatim>\<open>Remove-Item\<close>: with release \<open>v4\<close> on the store and a
  checksum file that holds another digest, the downloaded artifact is still in the
  scratch directory after the failed run.
\<close>

theorem mismatch_v1_keeps_staged:
  "fst (sync_db_v1 demo_params (demo_env release_v4 sha_bad) (installed ''OLD'' (''v3'' @ [CR, LF])))
     = Failed IntegrityError \<and>
   files (snd (sync_db_v1 demo_params (demo_env release_v4 sha_bad) (installed ''OLD'' (''v3'' @ [CR, LF]))))
     (tmpDownload demo_params) = Some ''NEW'' \<and>
   fst (sync_db_v2 demo_params (demo_env release_v4 sha_bad) (installed ''OLD'' (''v3'' @ [CR, LF])))
     = Failed IntegrityError \<and>
   files (snd (sync_db_v2 demo_params (demo_env release_v4 sha_bad) (installed ''OLD'' (''v3'' @ [CR, LF]))))
     (tmpDownload demo_params) = None"
  by code_simp

text \<open>
  Claim C4, on variant 1. The claim: the expected digest is the trimmed content of the
  checksum file when that is 64 hexadecimal digits, and else the first run of 64
  hexadecimal digits in the file. Variant 2 does so (\<open>expected_v2_clean\<close>,
  \<open>expected_v2_search\<close>, \<open>expected_v2_leading\<close>). Variant 1 takes the text before the first
  space of the first line: for a checksum file written by \<^verbatim>\<open>openssl dgst -sha256\<close> it
  extracts the label in front of the digest, and the run fails with an integrity error
  although the file holds the digest of the artifact.
\<close>

theorem expected_v1_not_tolerant:
  "expected_v1 sha_openssl = Inr ''SHA2-256(db_release.sqlite3)='' \<and>
   first_hex64 sha_openssl = Some digest_new \<and>
   expected_v2 sha_openssl = Inr digest_new \<and>
   actual_hash (demo_env release_v4 sha_openssl) ''NEW'' = digest_new \<and>
   fst (sync_db_v1 demo_params (demo_env release_v4 sha_openssl) fresh) = Failed IntegrityError \<and>
   fst (sync_db_v2 demo_params (demo_env release_v4 sha_openssl) fresh) = Synced"
  by code_simp

section \<open>Replica and marker after a run\<close>

lemma is_backup_paths [simp]:
  "is_backup (backupPath e)" "\<not> is_backup targetDb" "\<not> is_backup versionFile"
  "\<not> is_backup (tmpDownload p)"
  by (simp_all add: backupPath_def targetDb_def versionFile_def tmpDownload_def)

lemma sync_shape:
  assumes "sync = sync_db_v1 \<or> sync = sync_db_v2" and "sync p e w = (out, w')"
  shows "run_shape p e w out w'"
  using assms by (auto dest: sync_db_v1_shape sync_db_v2_shape)

lemma new_backups:
  assumes run: "replace_db p e tag w2 = (Synced, w')"
    and same: "\<forall>m. files w2 (Root m) = files w (Root m)"
    and old: "files w targetDb \<noteq> None" and free: "files w (backupPath e) = None"
  shows "{f. is_backup f \<and> files w f = None \<and> files w' f \<noteq> None} = {backupPath e}"
proof -
  have tgt: "files w2 targetDb = files w targetDb" and bak: "files w2 (backupPath e) = files w (backupPath e)"
    using same by (simp_all add: targetDb_def backupPath_def)
  have "files w' (backupPath e) = files w targetDb"
    using replace_db_Synced(4) [OF run] old tgt by simp
  with old free have 1: "backupPath e \<in> {f. is_backup f \<and> files w f = None \<and> files w' f \<noteq> None}"
    by simp
  have 2: "f = backupPath e" if f: "is_backup f" "files w f = None" "files w' f \<noteq> None" for f
  proof (rule ccontr)
    assume n: "f \<noteq> backupPath e"
    from f(1) obtain m where m: "f = Root m" by (cases f) auto
    from f(1) have "f \<noteq> targetDb" "f \<noteq> versionFile" "f \<noteq> tmpDownload p" by auto
    with n have "files w' f = files w2 f" by (intro replace_db_Synced(6) [OF run])
    with same m f show False by simp
  qed
  show ?thesis
  proof (intro set_eqI iffI)
    fix f assume "f \<in> {f. is_backup f \<and> files w f = None \<and> files w' f \<noteq> None}"
    then show "f \<in> {backupPath e}" using 2 by simp
  next
    fix f assume "f \<in> {backupPath e}"
    then show "f \<in> {f. is_backup f \<and> files w f = None \<and> files w' f \<noteq> None}"
      using 1 by simp
  qed
qed

text \<open>
  Claim C1, as amended. The claim: a run that fails at any stage or at any Replacer step
  leaves \<^verbatim>\<open>db.sqlite3\<close> and \<^verbatim>\<open>.db_version\<close> as they were, and a successful run leaves
  the remote tag in the marker and exactly one new backup. The scripts have no rollback,
  \<^verbatim>\<open>Move-Item -Force\<close> deletes the replica before it moves, and \<^verbatim>\<open>Copy-Item\<close>
  overwrites. What holds, for both variants: a run that fails before the move leaves
  the replica and the marker as they were; a run that fails at the move leaves the
  marker as it was and the replica as it was or deleted, its old content being at the
  backup path; a run that fails at the marker write leaves the marker as it was and the
  downloaded artifact of the latest release in the replica; a successful run leaves the
  remote tag and the line terminator in the marker and the downloaded artifact in the
  replica, and when a replica was there, its old content at the backup path, which is
  the one new backup file when no file was at that path.
\<close>

theorem replica_and_marker_after_run:
  assumes "sync = sync_db_v1 \<or> sync = sync_db_v2" and "sync p e w = (out, w')"
  shows "(\<forall>f. out = Failed f \<and> f \<noteq> MoveError \<and> f \<noteq> WriteError \<longrightarrow>
            files w' targetDb = files w targetDb \<and> files w' versionFile = files w versionFile) \<and>
         (out = Failed MoveError \<longrightarrow>
            files w' versionFile = files w versionFile \<and>
            files w' targetDb = (if move_keeps_target e then files w targetDb else None) \<and>
            (files w targetDb \<noteq> None \<longrightarrow> files w' (backupPath e) = files w targetDb)) \<and>
         (out = Failed WriteError \<longrightarrow>
            files w' versionFile = files w versionFile \<and>
            downloaded p e \<noteq> None \<and> files w' targetDb = downloaded p e) \<and>
         (out = Synced \<longrightarrow>
            (\<exists>rel. latest_release p e = Some rel \<and>
               files w' versionFile = Some (tag_name rel @ NewLine (platform e))) \<and>
            downloaded p e \<noteq> None \<and> files w' targetDb = downloaded p e \<and>
            (files w targetDb \<noteq> None \<longrightarrow>
               files w' (backupPath e) = files w targetDb \<and>
               (files w (backupPath e) = None \<longrightarrow>
                  {f. is_backup f \<and> files w f = None \<and> files w' f \<noteq> None} = {backupPath e})))"
proof -
  from sync_shape [OF assms] consider
      (early) f where "out = Failed f" "f \<notin> {CopyError, MoveError, WriteError}"
        "\<forall>m. files w' (Root m) = files w (Root m)"
    | (skip) "out = Skipped"
    | (replace) rel w2 where "latest_release p e = Some rel"
        "\<forall>m. files w2 (Root m) = files w (Root m)" "staged_ok p e rel w2"
        "replace_db p e (tag_name rel) w2 = (out, w')"
    unfolding run_shape_def by blast
  then show ?thesis
  proof cases
    case early
    then show ?thesis by (simp add: targetDb_def versionFile_def)
  next
    case skip
    then show ?thesis by simp
  next
    case replace
    have tgt: "files w2 targetDb = files w targetDb" and ver: "files w2 versionFile = files w versionFile"
      and bak: "files w2 (backupPath e) = files w (backupPath e)"
      using replace(2) by (simp_all add: targetDb_def versionFile_def backupPath_def)
    from replace(1,3) have body: "downloaded p e \<noteq> None" "files w2 (tmpDownload p) = downloaded p e"
      by (auto simp: staged_ok_def downloaded_def split: option.splits)
    then have staged: "files w2 (tmpDownload p) \<noteq> None" by simp
    have 1: "\<forall>f. out = Failed f \<and> f \<noteq> MoveError \<and> f \<noteq> WriteError \<longrightarrow>
            files w' targetDb = files w targetDb \<and> files w' versionFile = files w versionFile"
    proof (intro allI impI)
      fix f assume "out = Failed f \<and> f \<noteq> MoveError \<and> f \<noteq> WriteError"
      with replace(4) replace_db_failure [of p e "tag_name rel" w2 f w']
      have "replace_db p e (tag_name rel) w2 = (Failed CopyError, w')" by auto
      then have "w' = w2" by (rule replace_db_CopyError)
      with tgt ver show "files w' targetDb = files w targetDb \<and> files w' versionFile = files w versionFile"
        by simp
    qed
    have 2: "out = Failed MoveError \<longrightarrow>
            files w' versionFile = files w versionFile \<and>
            files w' targetDb = (if move_keeps_target e then files w targetDb else None) \<and>
            (files w targetDb \<noteq> None \<longrightarrow> files w' (backupPath e) = files w targetDb)"
    proof
      assume "out = Failed MoveError"
      with replace(4) have run: "replace_db p e (tag_name rel) w2 = (Failed MoveError, w')" by simp
      note m = replace_db_MoveError [OF run staged]
      from m(1) ver have a: "files w' versionFile = files w versionFile" by simp
      from m(2) tgt have b: "files w' targetDb = (if move_keeps_target e then files w targetDb else None)"
        by simp
      from m(3) tgt have c: "files w targetDb \<noteq> None \<longrightarrow> files w' (backupPath e) = files w targetDb"
        by simp
      from a b c show "files w' versionFile = files w versionFile \<and>
            files w' targetDb = (if move_keeps_target e then files w targetDb else None) \<and>
            (files w targetDb \<noteq> None \<longrightarrow> files w' (backupPath e) = files w targetDb)"
        by (intro conjI)
    qed
    have 3: "out = Failed WriteError \<longrightarrow>
            files w' versionFile = files w versionFile \<and>
            downloaded p e \<noteq> None \<and> files w' targetDb = downloaded p e"
      using replace(4) ver body by (auto dest: replace_db_WriteError)
    have 4: "out = Synced \<longrightarrow>
            (\<exists>rel. latest_release p e = Some rel \<and>
               files w' versionFile = Some (tag_name rel @ NewLine (platform e))) \<and>
            downloaded p e \<noteq> None \<and> files w' targetDb = downloaded p e \<and>
            (files w targetDb \<noteq> None \<longrightarrow>
               files w' (backupPath e) = files w targetDb \<and>
               (files w (backupPath e) = None \<longrightarrow>
                  {f. is_backup f \<and> files w f = None \<and> files w' f \<noteq> None} = {backupPath e}))"
    proof
      assume s: "out = Synced"
      with replace(4) have run: "replace_db p e (tag_name rel) w2 = (Synced, w')" by simp
      have a: "\<exists>rel. latest_release p e = Some rel \<and>
               files w' versionFile = Some (tag_name rel @ NewLine (platform e))"
        using replace(1) replace_db_Synced(1) [OF run] by blast
      have b: "files w' targetDb = downloaded p e"
        using replace_db_Synced(2) [OF run] body by simp
      have c: "files w targetDb \<noteq> None \<longrightarrow>
               files w' (backupPath e) = files w targetDb \<and>
               (files w (backupPath e) = None \<longrightarrow>
                  {f. is_backup f \<and> files w f = None \<and> files w' f \<noteq> None} = {backupPath e})"
        using replace_db_Synced(4) [OF run] tgt new_backups [OF run replace(2)] by auto
      from a body(1) b c show "(\<exists>rel. latest_release p e = Some rel \<and>
               files w' versionFile = Some (tag_name rel @ NewLine (platform e))) \<and>
            downloaded p e \<noteq> None \<and> files w' targetDb = downloaded p e \<and>
            (files w targetDb \<noteq> None \<longrightarrow>
               files w' (backupPath e) = files w targetDb \<and>
               (files w (backupPath e) = None \<longrightarrow>
                  {f. is_backup f \<and> files w f = None \<and> files w' f \<noteq> None} = {backupPath e}))"
        by (intro conjI)
    qed
    from 1 2 3 4 show ?thesis by (intro conjI)
  qed
qed

text \<open>
  The claim C1 as stated fails where \<^verbatim>\<open>Set-Content\<close> fails after the move, and where
  \<^verbatim>\<open>Move-Item\<close> fails after it has deleted the replica: the run fails and the replica
  is the new artifact, or is gone, in both variants.
\<close>

theorem replica_replaced_when_marker_write_fails:
  "fst (sync_db_v2 demo_params (env_v3\<lparr>write_ok := False\<rparr>) old_v2) = Failed WriteError \<and>
   files (snd (sync_db_v2 demo_params (env_v3\<lparr>write_ok := False\<rparr>) old_v2)) targetDb
     = Some ''NEW'' \<and>
   files old_v2 targetDb = Some ''OLD'' \<and>
   fst (sync_db_v1 demo_params (env_v3\<lparr>write_ok := False\<rparr>) old_v2) = Failed WriteError \<and>
   files (snd (sync_db_v1 demo_params (env_v3\<lparr>write_ok := False\<rparr>) old_v2)) targetDb
     = Some ''NEW'' \<and>
   fst (sync_db_v2 demo_params env_v3_no_move old_v2) = Failed MoveError \<and>
   files (snd (sync_db_v2 demo_params env_v3_no_move old_v2)) targetDb = None \<and>
   fst (sync_db_v1 demo_params env_v3_no_move old_v2) = Failed MoveError \<and>
   files (snd (sync_db_v1 demo_params env_v3_no_move old_v2)) targetDb = None"
  by code_simp


lemma demo_latest [simp]: "latest_release demo_params (demo_env rel sha) = Some rel"
  by (simp add: latest_release_def)

lemma ps_eq_v2 [simp]:
  "\<not> ps_eq ''v3'' ''v2''" "\<not> ps_eq ''v4'' ''v2''"
  "\<not> ps_eq ''v3'' [CHR ''v'', CHR ''2'', CR, LF]" "\<not> ps_eq ''v4'' [CHR ''v'', CHR ''3'', CR, LF]"
  "\<not> ps_eq ''v4'' [CHR ''v'', CHR ''2'', CR, LF]"
  by (simp_all add: ps_eq_def ToLower_def lower_char_def CR_def LF_def)

lemma flag_update [simp]:
  "backupPath (e\<lparr>write_ok := b\<rparr>) = backupPath e"
  "backupPath (e\<lparr>move_ok := b\<rparr>) = backupPath e"
  "backupPath (e\<lparr>move_keeps_target := b\<rparr>) = backupPath e"
  "resolve_v2 p (e\<lparr>write_ok := b\<rparr>) = resolve_v2 p e"
  "resolve_v2 p (e\<lparr>move_ok := b\<rparr>) = resolve_v2 p e"
  "resolve_v2 p (e\<lparr>move_keeps_target := b\<rparr>) = resolve_v2 p e"
  by (simp_all add: backupPath_def resolve_v2_def)

lemma latest_release_update [simp]:
  "latest_release p (e\<lparr>write_ok := b\<rparr>) = latest_release p e"
  by (simp add: latest_release_def split: sum.splits prod.splits)

lemma release_artifact_update [simp]:
  "release_artifact p (e\<lparr>write_ok := b\<rparr>) rel = release_artifact p e rel"
  by (simp add: release_artifact_def split: option.splits)

lemma downloaded_update [simp]:
  "downloaded p (e\<lparr>write_ok := b\<rparr>) = downloaded p e"
  by (simp add: downloaded_def split: option.splits)

lemma demo_downloaded [simp]: "downloaded demo_params env_v3 = Some ''NEW''"
  by (simp add: downloaded_def release_artifact_def env_v3_def release_v3_def find_asset_def
      db_asset_def)

lemma env_v3_backup [simp]: "backupPath env_v3 = demo_backup"
  by (simp add: env_v3_def)

lemma env_v3_no_move_sel [simp]:
  "platform env_v3_no_move = Windows"
  "git_remote env_v3_no_move = GitOutput ''https://github.com/yoona8030/sencity_backend.git''"
  "rest_get env_v3_no_move uri = (if uri = demo_api then Some release_v3 else None)"
  "web_get env_v3_no_move uri =
     (if uri = db_url then Fetched ''NEW'' else if uri = sha_url then Fetched [] else Broken None)"
  "clock env_v3_no_move = demo_clock"
  "copy_ok env_v3_no_move" "\<not> move_ok env_v3_no_move" "\<not> move_keeps_target env_v3_no_move"
  "backupPath env_v3_no_move = demo_backup"
  "resolve_v2 demo_params env_v3_no_move = Inr (''yoona8030'', ''sencity_backend'')"
  by (simp_all add: env_v3_no_move_def env_v3_def)

lemma run_v2_upgrade: "sync_db_v2 demo_params env_v3 old_v2 = (Synced, upgraded)"
  by (auto simp: run_defs fun_eq_iff env_v3_def old_v2_def upgraded_def)

lemma run_v2_no_write:
  "sync_db_v2 demo_params (env_v3\<lparr>write_ok := False\<rparr>) old_v2 = (Failed WriteError, half_replaced)"
  by (auto simp: run_defs fun_eq_iff env_v3_def old_v2_def half_replaced_def)

lemma run_v2_no_move:
  "sync_db_v2 demo_params env_v3_no_move old_v2 = (Failed MoveError, replica_lost)"
  by (auto simp: run_defs fun_eq_iff old_v2_def replica_lost_def)

lemma run_v1_no_asset:
  "sync_db_v1 demo_params (demo_env \<lparr>tag_name = ''v3'', assets = []\<rparr> []) old_v2 =
     (Failed AssetNotFoundError, asked)"
  by (auto simp: run_defs fun_eq_iff old_v2_def asked_def)

text \<open>The theorem at four runs: an upgrade from \<open>v2\<close> to \<open>v3\<close>, the same upgrade with
  a marker that cannot be written, the same upgrade with a move that fails after the
  replica is deleted, and a release without the asset.\<close>

theorem replica_and_marker_after_run_witness:
  "(sync_db_v2 demo_params env_v3 old_v2 = (Synced, upgraded) \<and>
    files old_v2 targetDb \<noteq> None \<and> files old_v2 (backupPath env_v3) = None \<and>
    files upgraded versionFile = Some (''v3'' @ [CR, LF]) \<and>
    downloaded demo_params env_v3 = Some ''NEW'' \<and>
    files upgraded targetDb = downloaded demo_params env_v3 \<and>
    files upgraded (backupPath env_v3) = Some ''OLD'' \<and>
    {f. is_backup f \<and> files old_v2 f = None \<and> files upgraded f \<noteq> None} = {backupPath env_v3}) \<and>
   (sync_db_v2 demo_params (env_v3\<lparr>write_ok := False\<rparr>) old_v2 = (Failed WriteError, half_replaced) \<and>
    files half_replaced versionFile = files old_v2 versionFile \<and>
    files half_replaced targetDb = downloaded demo_params (env_v3\<lparr>write_ok := False\<rparr>)) \<and>
   (sync_db_v2 demo_params env_v3_no_move old_v2 = (Failed MoveError, replica_lost) \<and>
    \<not> move_keeps_target env_v3_no_move \<and>
    files replica_lost versionFile = files old_v2 versionFile \<and>
    files replica_lost targetDb = None \<and>
    files replica_lost (backupPath env_v3_no_move) = files old_v2 targetDb) \<and>
   (sync_db_v1 demo_params (demo_env \<lparr>tag_name = ''v3'', assets = []\<rparr> []) old_v2 =
      (Failed AssetNotFoundError, asked) \<and>
    AssetNotFoundError \<noteq> MoveError \<and> AssetNotFoundError \<noteq> WriteError \<and>
    files asked targetDb = files old_v2 targetDb \<and> files asked versionFile = files old_v2 versionFile)"
proof -
  have old: "files old_v2 targetDb \<noteq> None" "files old_v2 (backupPath env_v3) = None"
    by (simp_all add: installed_def old_v2_def)
  have old': "files old_v2 targetDb = Some ''OLD''"
    by (simp add: installed_def old_v2_def)
  have v2: "sync_db_v2 = sync_db_v1 \<or> sync_db_v2 = sync_db_v2"
    and v1: "sync_db_v1 = sync_db_v1 \<or> sync_db_v1 = sync_db_v2" by simp_all
  note a = replica_and_marker_after_run [OF v2 run_v2_upgrade, THEN conjunct2, THEN conjunct2,
      THEN conjunct2, THEN mp, OF refl]
  note b = replica_and_marker_after_run [OF v2 run_v2_no_write, THEN conjunct2, THEN conjunct2,
      THEN conjunct1, THEN mp, OF refl]
  note m = replica_and_marker_after_run [OF v2 run_v2_no_move, THEN conjunct2,
      THEN conjunct1, THEN mp, OF refl]
  note c = replica_and_marker_after_run [OF v1 run_v1_no_asset, THEN conjunct1, THEN spec,
      of AssetNotFoundError]
  note a3 = a [THEN conjunct2, THEN conjunct2, THEN conjunct2, THEN mp, OF old(1)]
  note 1 = a3 [THEN conjunct2, THEN mp, OF old(2)]
  have 2: "files upgraded (backupPath env_v3) = Some ''OLD''"
    using a3 [THEN conjunct1] old' by simp
  have 3: "files upgraded versionFile = Some (''v3'' @ [CR, LF])"
    by (simp add: upgraded_def)
  note 4 = a [THEN conjunct2, THEN conjunct2, THEN conjunct1]
  note 5 = b [THEN conjunct1] b [THEN conjunct2, THEN conjunct2]
  have nk: "\<not> move_keeps_target env_v3_no_move" by simp
  note 6 = m [THEN conjunct1]
  have 7: "files replica_lost targetDb = None"
    using m [THEN conjunct2, THEN conjunct1] nk by simp
  note 8 = m [THEN conjunct2, THEN conjunct2, THEN mp, OF old(1)]
  have 9: "AssetNotFoundError \<noteq> MoveError" "AssetNotFoundError \<noteq> WriteError" by simp_all
  have c': "files asked targetDb = files old_v2 targetDb \<and> files asked versionFile = files old_v2 versionFile"
    using c by simp
  note 10 = c' [THEN conjunct1] c' [THEN conjunct2]
  show ?thesis
    by (intro conjI; fact old run_v2_upgrade run_v2_no_write run_v2_no_move run_v1_no_asset
        demo_downloaded nk 1 2 3 4 5 6 7 8 9 10)
qed

section \<open>Timestamps\<close>

lemma digit_code_list: "\<forall>k\<in>set [0..<10]. (of_char (''0123456789'' ! k) :: nat) = 48 + k"
  by code_simp

lemma digit_code: "(of_char (digit n) :: nat) = 48 + n mod 10"
proof -
  have "n mod 10 \<in> set [0..<10]" by simp
  with digit_code_list show ?thesis unfolding digit_def by blast
qed

lemma digit_eq: "(digit a = digit b) = (a mod 10 = b mod 10)"
proof
  assume "digit a = digit b"
  then have "(of_char (digit a) :: nat) = of_char (digit b)" by simp
  then show "a mod 10 = b mod 10" by (simp add: digit_code)
next
  assume "a mod 10 = b mod 10"
  then show "digit a = digit b" by (simp add: digit_def)
qed

lemma str_less_digit:
  "str_less (digit a # r) (digit b # s) =
     (a mod 10 < b mod 10 \<or> (a mod 10 = b mod 10 \<and> str_less r s))"
  by (simp add: digit_code digit_eq)

lemma pair_less:
  fixes a b c d k :: nat
  assumes "b < k" and "d < k"
  shows "(k * a + b < k * c + d) = (a < c \<or> (a = c \<and> b < d))"
proof (cases "a < c")
  case True
  then have "Suc a \<le> c" by simp
  then have "k * Suc a \<le> k * c" by (rule mult_le_mono2)
  with assms True show ?thesis by simp
next
  case False
  note nlt = False
  show ?thesis
  proof (cases "a = c")
    case True
    then show ?thesis by simp
  next
    case False
    with nlt have "Suc c \<le> a" by simp
    then have "k * Suc c \<le> k * a" by (rule mult_le_mono2)
    with assms nlt False show ?thesis by simp
  qed
qed

lemma pair_eq:
  fixes a b c d k :: nat
  assumes "b < k" and "d < k"
  shows "(k * a + b = k * c + d) = (a = c \<and> b = d)"
  using pair_less [OF assms, of a c] pair_less [OF assms(2) assms(1), of c a]
  by auto

lemma split_10: "(m::nat) = 10 * (m div 10) + m mod 10"
  by simp

lemma str_less_two:
  assumes "m < 100" and "n < 100"
  shows "str_less (two_digits m @ r) (two_digits n @ s) = (m < n \<or> (m = n \<and> str_less r s))"
proof -
  have a: "m div 10 < 10" "n div 10 < 10" using assms by simp_all
  have b: "m mod 10 < 10" "n mod 10 < 10" by simp_all
  have "str_less (two_digits m @ r) (two_digits n @ s) =
      (m div 10 < n div 10 \<or>
       (m div 10 = n div 10 \<and>
        (m mod 10 < n mod 10 \<or> (m mod 10 = n mod 10 \<and> str_less r s))))"
    using a by (simp add: two_digits_def str_less_digit del: str_less.simps)
  moreover have "(m < n) = (m div 10 < n div 10 \<or> (m div 10 = n div 10 \<and> m mod 10 < n mod 10))"
    using pair_less [OF b, of "m div 10" "n div 10"] by simp
  moreover have "(m = n) = (m div 10 = n div 10 \<and> m mod 10 = n mod 10)"
    using pair_eq [OF b, of "m div 10" "n div 10"] by simp
  ultimately show ?thesis by blast
qed

lemma four_digits_split:
  "four_digits y = two_digits (y div 100) @ two_digits (y mod 100)"
proof -
  have 1: "y div 100 div 10 = y div 1000" by (simp add: div_mult2_eq [symmetric])
  have "y mod (10 * 10) = 10 * (y div 10 mod 10) + y mod 10" by (rule mod_mult2_eq)
  then have 2: "y mod 100 div 10 = y div 10 mod 10" by simp
  have 3: "y mod 100 mod 10 = y mod 10" by (simp add: mod_mod_cancel)
  have 4: "digit (y mod 100 div 10) = digit (y div 10)" by (simp add: digit_eq 2)
  have 5: "digit (y mod 100) = digit y" by (simp add: digit_eq 3)
  show ?thesis by (simp add: four_digits_def two_digits_def 1 4 5)
qed

lemma str_less_four:
  assumes "m < 10000" and "n < 10000"
  shows "str_less (four_digits m @ r) (four_digits n @ s) = (m < n \<or> (m = n \<and> str_less r s))"
proof -
  have a: "m div 100 < 100" "n div 100 < 100" using assms by simp_all
  have b: "m mod 100 < 100" "n mod 100 < 100" by simp_all
  have "str_less (four_digits m @ r) (four_digits n @ s) =
      (m div 100 < n div 100 \<or>
       (m div 100 = n div 100 \<and>
        (m mod 100 < n mod 100 \<or> (m mod 100 = n mod 100 \<and> str_less r s))))"
    by (simp only: four_digits_split append_assoc str_less_two [OF a] str_less_two [OF b])
  moreover have "(m < n) = (m div 100 < n div 100 \<or> (m div 100 = n div 100 \<and> m mod 100 < n mod 100))"
    using pair_less [OF b, of "m div 100" "n div 100"] by simp
  moreover have "(m = n) = (m div 100 = n div 100 \<and> m mod 100 = n mod 100)"
    using pair_eq [OF b, of "m div 100" "n div 100"] by simp
  ultimately show ?thesis by blast
qed

lemma str_less_same: "str_less (c # r) (c # s) = str_less r s"
  by simp

text \<open>The format is sortable: two timestamps compare as strings the way their dates
  compare in time.\<close>

lemma Get_Date_Format_sortable:
  assumes "date_ok d1" and "date_ok d2"
  shows "str_less (Get_Date_Format d1) (Get_Date_Format d2) = key_less (date_key d1) (date_key d2)"
proof -
  from assms have y: "year d1 < 10000" "year d2 < 10000"
    and mo: "month d1 < 100" "month d2 < 100" and da: "day d1 < 100" "day d2 < 100"
    and h: "hour d1 < 100" "hour d2 < 100" and mi: "minute d1 < 100" "minute d2 < 100"
    and se: "second d1 < 100" "second d2 < 100"
    by (simp_all add: date_ok_def)
  have last: "str_less (two_digits (second d1)) (two_digits (second d2)) = (second d1 < second d2)"
    using str_less_two [OF se, of "[]" "[]"] by simp
  have "str_less (Get_Date_Format d1) (Get_Date_Format d2) =
     (year d1 < year d2 \<or> (year d1 = year d2 \<and>
     (month d1 < month d2 \<or> (month d1 = month d2 \<and>
     (day d1 < day d2 \<or> (day d1 = day d2 \<and>
     (hour d1 < hour d2 \<or> (hour d1 = hour d2 \<and>
     (minute d1 < minute d2 \<or> (minute d1 = minute d2 \<and>
      second d1 < second d2))))))))))"
    unfolding Get_Date_Format_def
    by (simp only: str_less_four [OF y] str_less_two [OF mo] str_less_two [OF da]
        str_less_two [OF h] str_less_two [OF mi] last append_Cons append_Nil str_less_same)
  then show ?thesis by (simp add: date_key_def)
qed

lemma digit_is_digit [simp]: "is_digit (digit n)"
  unfolding digit_def is_digit_def by (rule nth_mem) simp

lemma Get_Date_Format_shape:
  "length (Get_Date_Format d) = 15 \<and> list_all is_digit (take 8 (Get_Date_Format d)) \<and>
   Get_Date_Format d ! 8 = CHR ''-'' \<and> list_all is_digit (drop 9 (Get_Date_Format d))"
  by (simp add: Get_Date_Format_def four_digits_def two_digits_def)

section \<open>Backups\<close>

lemma backupPath_name:
  "backupPath e = Root (''db.sqlite3.bak.'' @ Get_Date_Format (clock e))"
  by (simp add: backupPath_def)

text \<open>
  Claim C5, as amended. The claim: a successful sync with a replica in place creates
  exactly one new backup file, named with a sortable timestamp and holding the old
  replica, and none without a replica. \<^verbatim>\<open>Copy-Item\<close> does not look at the destination.
  What holds, for both variants, after a successful run: when a replica was there, its
  old content is at \<^verbatim>\<open>db.sqlite3.bak.\<close> followed by the timestamp, no other backup file
  has changed, and this is the one new backup file when no file was at that path;
  when no replica was there, no backup file is created or changed. The timestamp has
  15 characters, digits around a dash in ninth place, and timestamps compare as
  strings the way their dates compare in time.
\<close>

theorem backup_of_replica:
  assumes "sync = sync_db_v1 \<or> sync = sync_db_v2" and "sync p e w = (Synced, w')"
  shows "(files w targetDb \<noteq> None \<longrightarrow>
            files w' (backupPath e) = files w targetDb \<and>
            (\<forall>f. is_backup f \<and> f \<noteq> backupPath e \<longrightarrow> files w' f = files w f) \<and>
            (files w (backupPath e) = None \<longrightarrow>
               {f. is_backup f \<and> files w f = None \<and> files w' f \<noteq> None} = {backupPath e})) \<and>
         (files w targetDb = None \<longrightarrow> (\<forall>f. is_backup f \<longrightarrow> files w' f = files w f)) \<and>
         backupPath e = Root (''db.sqlite3.bak.'' @ Get_Date_Format (clock e)) \<and>
         length (Get_Date_Format (clock e)) = 15 \<and>
         list_all is_digit (take 8 (Get_Date_Format (clock e))) \<and>
         Get_Date_Format (clock e) ! 8 = CHR ''-'' \<and>
         list_all is_digit (drop 9 (Get_Date_Format (clock e))) \<and>
         (\<forall>d1 d2. date_ok d1 \<and> date_ok d2 \<longrightarrow>
            str_less (Get_Date_Format d1) (Get_Date_Format d2) =
            key_less (date_key d1) (date_key d2))"
proof -
  from sync_shape [OF assms] have "\<exists>rel w2. latest_release p e = Some rel \<and>
      (\<forall>m. files w2 (Root m) = files w (Root m)) \<and> staged_ok p e rel w2 \<and>
      replace_db p e (tag_name rel) w2 = (Synced, w')"
    unfolding run_shape_def by simp
  then obtain rel where "\<exists>w2. latest_release p e = Some rel \<and>
      (\<forall>m. files w2 (Root m) = files w (Root m)) \<and> staged_ok p e rel w2 \<and>
      replace_db p e (tag_name rel) w2 = (Synced, w')" ..
  then obtain w2 where R: "latest_release p e = Some rel \<and>
      (\<forall>m. files w2 (Root m) = files w (Root m)) \<and> staged_ok p e rel w2 \<and>
      replace_db p e (tag_name rel) w2 = (Synced, w')" ..
  note same = R [THEN conjunct2, THEN conjunct1]
  note run = R [THEN conjunct2, THEN conjunct2, THEN conjunct2]
  have tgt: "files w2 targetDb = files w targetDb"
    and bak: "files w2 (backupPath e) = files w (backupPath e)"
    using same by (simp_all add: targetDb_def backupPath_def)
  have others: "files w' f = files w f" if f: "is_backup f" "f \<noteq> backupPath e" for f
  proof -
    from f(1) obtain m where m: "f = Root m" by (cases f) auto
    from f(1) have "f \<noteq> targetDb" "f \<noteq> versionFile" "f \<noteq> tmpDownload p" by auto
    with f(2) have "files w' f = files w2 f" by (intro replace_db_Synced(6) [OF run])
    with same m show ?thesis by simp
  qed
  have 1: "files w targetDb \<noteq> None \<longrightarrow>
            files w' (backupPath e) = files w targetDb \<and>
            (\<forall>f. is_backup f \<and> f \<noteq> backupPath e \<longrightarrow> files w' f = files w f) \<and>
            (files w (backupPath e) = None \<longrightarrow>
               {f. is_backup f \<and> files w f = None \<and> files w' f \<noteq> None} = {backupPath e})"
    using replace_db_Synced(4) [OF run] tgt others new_backups [OF run same] by auto
  have 2: "files w targetDb = None \<longrightarrow> (\<forall>f. is_backup f \<longrightarrow> files w' f = files w f)"
  proof (intro impI allI)
    fix f assume none: "files w targetDb = None" and b: "is_backup f"
    show "files w' f = files w f"
    proof (cases "f = backupPath e")
      case True
      with replace_db_Synced(5) [OF run] none tgt bak show ?thesis by simp
    next
      case False
      with b show ?thesis by (rule others)
    qed
  qed
  have 3: "\<forall>d1 d2. date_ok d1 \<and> date_ok d2 \<longrightarrow>
            str_less (Get_Date_Format d1) (Get_Date_Format d2) =
            key_less (date_key d1) (date_key d2)"
    by (simp add: Get_Date_Format_sortable)
  note shape = Get_Date_Format_shape [of "clock e"]
  show ?thesis
    by (intro conjI; fact 1 2 3 backupPath_name shape [THEN conjunct1]
        shape [THEN conjunct2, THEN conjunct1]
        shape [THEN conjunct2, THEN conjunct2, THEN conjunct1]
        shape [THEN conjunct2, THEN conjunct2, THEN conjunct2])
qed

lemma run_v2_collide: "sync_db_v2 demo_params env_v3 collide = (Synced, upgraded)"
  by (auto simp: run_defs fun_eq_iff env_v3_def collide_def upgraded_def)

text \<open>
  The claim C5 as stated fails when a backup of the same second is there: the run
  succeeds, the earlier backup is overwritten and the set of files is what it was, so
  that no new backup file exists.
\<close>

theorem backup_overwritten_in_same_second:
  "fst (sync_db_v2 demo_params env_v3 collide) = Synced \<and>
   files collide targetDb = Some ''OLD'' \<and>
   files collide (backupPath env_v3) = Some ''EARLIER'' \<and>
   files (snd (sync_db_v2 demo_params env_v3 collide)) (backupPath env_v3) = Some ''OLD'' \<and>
   dom (files (snd (sync_db_v2 demo_params env_v3 collide))) = dom (files collide)"
  by (simp only: run_v2_collide fst_conv snd_conv) (auto simp: collide_def upgraded_def)

text \<open>The theorem at the upgrade from \<open>v2\<close> to \<open>v3\<close>, at the first run on a fresh clone,
  and at two dates.\<close>

theorem backup_of_replica_witness:
  "sync_db_v2 demo_params env_v3 old_v2 = (Synced, upgraded) \<and>
   files old_v2 targetDb \<noteq> None \<and> files old_v2 (backupPath env_v3) = None \<and>
   files upgraded (backupPath env_v3) = files old_v2 targetDb \<and>
   {f. is_backup f \<and> files old_v2 f = None \<and> files upgraded f \<noteq> None} = {backupPath env_v3} \<and>
   sync_db_v1 demo_params env_v3 fresh = (Synced, after_v1) \<and>
   files fresh targetDb = None \<and>
   is_backup (backupPath env_v3) \<and>
   files after_v1 (backupPath env_v3) = files fresh (backupPath env_v3) \<and>
   date_ok (clock env_v3) \<and> date_ok later_clock \<and>
   str_less (Get_Date_Format (clock env_v3)) (Get_Date_Format later_clock) =
     key_less (date_key (clock env_v3)) (date_key later_clock)"
proof -
  have old: "files old_v2 targetDb \<noteq> None" "files old_v2 (backupPath env_v3) = None"
    by (simp_all add: installed_def old_v2_def)
  have new: "files fresh targetDb = None" by (simp add: fresh_def)
  have ok: "date_ok (clock env_v3)" "date_ok later_clock"
    by (simp_all add: env_v3_def demo_clock_def later_clock_def date_ok_def)
  have v2: "sync_db_v2 = sync_db_v1 \<or> sync_db_v2 = sync_db_v2"
    and v1: "sync_db_v1 = sync_db_v1 \<or> sync_db_v1 = sync_db_v2" by simp_all
  have r1: "sync_db_v1 demo_params env_v3 fresh = (Synced, after_v1)"
    by (simp add: after_v1_def env_v3_def run_v1_fresh)
  note a = backup_of_replica [OF v2 run_v2_upgrade]
  note b = backup_of_replica [OF v1 r1]
  note a1 = a [THEN conjunct1, THEN mp, OF old(1)]
  note 1 = a1 [THEN conjunct1] a1 [THEN conjunct2, THEN conjunct2, THEN mp, OF old(2)]
  have 2: "is_backup (backupPath env_v3)" by (rule is_backup_paths)
  note 3 = b [THEN conjunct2, THEN conjunct1, THEN mp, OF new, THEN spec, THEN mp, OF 2]
  note 4 = a [THEN conjunct2, THEN conjunct2, THEN conjunct2, THEN conjunct2, THEN conjunct2,
      THEN conjunct2, THEN conjunct2, THEN spec, THEN spec, THEN mp, OF conjI [OF ok]]
  show ?thesis
    by (intro conjI; fact old new ok run_v2_upgrade r1 1 2 3 4)
qed

section \<open>A release without a checksum asset\<close>

lemma find_asset_None:
  "\<forall>a\<in>set as. \<not> ps_eq (name a) n \<Longrightarrow> find_asset as n = None"
  by (simp add: find_asset_def find_None_iff)

lemma verify_no_sha:
  assumes "\<forall>a\<in>set (assets rel). \<not> ps_eq (name a) (ShaAssetName p)"
  shows "verify_v1 p e rel w = (None, w)" and "verify_v2 p e rel w = (None, w)"
  using find_asset_None [OF assms] by (simp_all add: verify_v1_def verify_v2_def)

lemma replace_db_ok:
  assumes "files w (tmpDownload p) = Some body"
    and "files w targetDb = None \<or> copy_ok e" and "move_ok e" and "write_ok e"
  shows "fst (replace_db p e tag w) = Synced"
    and "files (snd (replace_db p e tag w)) targetDb = Some body"
    and "files (snd (replace_db p e tag w)) versionFile = Some (tag @ NewLine (platform e))"
    and "requests (snd (replace_db p e tag w)) = requests w"
  using assms
  by (auto simp: replace_db_def backup_db_def Copy_Item_def Move_Item_def Set_Content_def
      Test_Path_def split: option.splits)

lemma fetch_no_sha:
  assumes primary: "find_asset (assets rel) (AssetName p) = Some asset"
    and nosha: "\<forall>a\<in>set (assets rel). \<not> ps_eq (name a) (ShaAssetName p)"
    and dl: "web_get e (browser_download_url asset) = Fetched body"
    and verify: "verify = verify_v1 \<or> verify = verify_v2"
  shows "fetch_and_replace verify p e rel w =
     replace_db p e (tag_name rel)
       (w\<lparr>requests := requests w @ [WebGet (browser_download_url asset)],
          files := (files w)(tmpDownload p \<mapsto> body)\<rparr>)"
  using verify primary dl verify_no_sha [OF nosha]
  by (auto simp: fetch_and_replace_def Invoke_WebRequest_def)


lemma no_backup_without_replica:
  assumes run: "replace_db p e tag w = (Synced, w')" and none: "files w targetDb = None"
    and b: "is_backup f"
  shows "files w' f = files w f"
proof (cases "f = backupPath e")
  case True
  with replace_db_Synced(5) [OF run none] show ?thesis by simp
next
  case False
  from b have "f \<noteq> targetDb" "f \<noteq> versionFile" "f \<noteq> tmpDownload p" by auto
  with False show ?thesis by (intro replace_db_Synced(6) [OF run])
qed

lemma skip_ignores_requests [simp]:
  "shouldSkip_v1 tag (w\<lparr>requests := r\<rparr>) = shouldSkip_v1 tag w"
  "localTag_v2 (w\<lparr>requests := r\<rparr>) = localTag_v2 w"
  "shouldSkip_v2 tag lt (w\<lparr>requests := r\<rparr>) = shouldSkip_v2 tag lt w"
  by (simp_all add: shouldSkip_v1_def localTag_v1_def localTag_v2_def shouldSkip_v2_def Test_Path_def)

text \<open>
  Claim C6. When the release has the primary asset and no asset whose name is \<^verbatim>\<open>-eq\<close>
  to the checksum asset name, verification does nothing in either variant, and a run
  that does not skip, whose download and file operations succeed, installs the
  downloaded body, writes the remote tag and the line terminator into the marker, makes
  the metadata query and the one download only, and exits with 0; without a replica
  before the run no backup file is created.
\<close>

theorem no_checksum_asset_installs:
  assumes rel: "latest_release p e = Some rel"
    and primary: "find_asset (assets rel) (AssetName p) = Some asset"
    and nosha: "\<forall>a\<in>set (assets rel). \<not> ps_eq (name a) (ShaAssetName p)"
    and dl: "web_get e (browser_download_url asset) = Fetched body"
    and cp: "files w targetDb = None \<or> copy_ok e" and mv: "move_ok e" and wr: "write_ok e"
    and sync: "sync = sync_db_v1 \<and> \<not> shouldSkip_v1 (tag_name rel) w \<or>
               sync = sync_db_v2 \<and>
               (\<exists>localTag. localTag_v2 w = Inr localTag \<and> \<not> shouldSkip_v2 (tag_name rel) localTag w)"
  shows "(\<forall>w1. verify_v1 p e rel w1 = (None, w1) \<and> verify_v2 p e rel w1 = (None, w1)) \<and>
         fst (sync p e w) = Synced \<and> exit_code (fst (sync p e w)) = 0 \<and>
         files (snd (sync p e w)) targetDb = Some body \<and>
         files (snd (sync p e w)) versionFile = Some (tag_name rel @ NewLine (platform e)) \<and>
         requests (snd (sync p e w)) =
           requests w @ [RestGet (latest_url p e), WebGet (browser_download_url asset)] \<and>
         (files w targetDb = None \<longrightarrow>
            (\<forall>f. is_backup f \<longrightarrow> files (snd (sync p e w)) f = files w f))"
proof -
  from latest_release_Some [OF rel] obtain owner repo where
    res: "resolve_v2 p e = Inr (owner, repo)" and get: "rest_get e (api_url owner repo) = Some rel"
    and url: "latest_url p e = api_url owner repo" by blast
  let ?w1 = "w\<lparr>requests := requests w @ [RestGet (api_url owner repo)]\<rparr>"
  let ?w2 = "?w1\<lparr>requests := requests ?w1 @ [WebGet (browser_download_url asset)],
                  files := (files ?w1)(tmpDownload p \<mapsto> body)\<rparr>"
  have run: "sync p e w = replace_db p e (tag_name rel) ?w2"
  proof -
    from sync consider (v1) "sync = sync_db_v1" "\<not> shouldSkip_v1 (tag_name rel) w"
      | (v2) localTag where "sync = sync_db_v2" "localTag_v2 w = Inr localTag"
          "\<not> shouldSkip_v2 (tag_name rel) localTag w" by blast
    then show ?thesis
    proof cases
      case v1
      then show ?thesis
        using res get fetch_no_sha [OF primary nosha dl, of verify_v1 ?w1]
        by (simp add: sync_db_v1_def resolve_v1_eq_v2 Invoke_RestMethod_def)
    next
      case v2
      then show ?thesis
        using res get fetch_no_sha [OF primary nosha dl, of verify_v2 ?w1]
        by (simp add: sync_db_v2_def Invoke_RestMethod_def)
    qed
  qed
  have staged: "files ?w2 (tmpDownload p) = Some body" by simp
  have copy2: "files ?w2 targetDb = None \<or> copy_ok e" using cp by simp
  note ok = replace_db_ok [OF staged copy2 mv wr, of "tag_name rel"]
  have nobak: "files w targetDb = None \<longrightarrow>
            (\<forall>f. is_backup f \<longrightarrow> files (snd (sync p e w)) f = files w f)"
  proof (intro impI allI)
    fix f assume none: "files w targetDb = None" and b: "is_backup f"
    have "replace_db p e (tag_name rel) ?w2 = (Synced, snd (replace_db p e (tag_name rel) ?w2))"
      using ok(1) by (simp add: prod_eq_iff)
    from no_backup_without_replica [OF this _ b] none b
    show "files (snd (sync p e w)) f = files w f" by (auto simp: run)
  qed
  have v: "\<forall>w1. verify_v1 p e rel w1 = (None, w1) \<and> verify_v2 p e rel w1 = (None, w1)"
    using verify_no_sha [OF nosha] by simp
  from v ok nobak show ?thesis by (simp add: run url)
qed

lemma run_v2_fresh: "sync_db_v2 demo_params env_v3 fresh = (Synced, after_v1)"
  unfolding after_v1_def run_v1_fresh snd_conv by (auto simp: run_defs fun_eq_iff env_v3_def)


text \<open>The theorem at scenario A: release \<open>v3\<close> without a checksum asset, no marker and
  no replica, for both variants.\<close>

theorem no_checksum_asset_installs_witness:
  "latest_release demo_params env_v3 = Some release_v3 \<and>
   find_asset (assets release_v3) (AssetName demo_params) = Some db_asset \<and>
   assets release_v3 = [db_asset] \<and> \<not> ps_eq (name db_asset) (ShaAssetName demo_params) \<and>
   web_get env_v3 (browser_download_url db_asset) = Fetched ''NEW'' \<and>
   files fresh targetDb = None \<and> move_ok env_v3 \<and> write_ok env_v3 \<and>
   \<not> shouldSkip_v1 (tag_name release_v3) fresh \<and>
   localTag_v2 fresh = Inr [] \<and> \<not> shouldSkip_v2 (tag_name release_v3) [] fresh \<and>
   is_backup (backupPath env_v3) \<and>
   fst (sync_db_v1 demo_params env_v3 fresh) = Synced \<and>
   files (snd (sync_db_v1 demo_params env_v3 fresh)) targetDb = Some ''NEW'' \<and>
   files (snd (sync_db_v1 demo_params env_v3 fresh)) versionFile =
     Some (tag_name release_v3 @ NewLine (platform env_v3)) \<and>
   files (snd (sync_db_v1 demo_params env_v3 fresh)) (backupPath env_v3) =
     files fresh (backupPath env_v3) \<and>
   fst (sync_db_v2 demo_params env_v3 fresh) = Synced \<and>
   files (snd (sync_db_v2 demo_params env_v3 fresh)) targetDb = Some ''NEW'' \<and>
   files (snd (sync_db_v2 demo_params env_v3 fresh)) versionFile =
     Some (tag_name release_v3 @ NewLine (platform env_v3)) \<and>
   files (snd (sync_db_v2 demo_params env_v3 fresh)) (backupPath env_v3) =
     files fresh (backupPath env_v3)"
proof -
  have rel: "latest_release demo_params env_v3 = Some release_v3"
    by (simp add: env_v3_def)
  have primary: "find_asset (assets release_v3) (AssetName demo_params) = Some db_asset"
    by (simp add: release_v3_def find_asset_def db_asset_def)
  have nosha: "\<forall>a\<in>set (assets release_v3). \<not> ps_eq (name a) (ShaAssetName demo_params)"
    by (simp add: release_v3_def db_asset_def)
  have as: "assets release_v3 = [db_asset]" by (simp add: release_v3_def)
  have ne: "\<not> ps_eq (name db_asset) (ShaAssetName demo_params)" by (simp add: db_asset_def)
  have dl: "web_get env_v3 (browser_download_url db_asset) = Fetched ''NEW''"
    by (simp add: env_v3_def db_asset_def)
  have none: "files fresh targetDb = None" by (simp add: fresh_def)
  have mv: "move_ok env_v3" and wr: "write_ok env_v3" by (simp_all add: env_v3_def)
  have s1: "\<not> shouldSkip_v1 (tag_name release_v3) fresh"
    by (simp add: shouldSkip_v1_def Test_Path_def fresh_def)
  have lt: "localTag_v2 fresh = Inr []"
    by (simp add: localTag_v2_def fresh_def)
  have s2: "\<not> shouldSkip_v2 (tag_name release_v3) [] fresh"
    by (simp add: shouldSkip_v2_def Test_Path_def fresh_def)
  have b: "is_backup (backupPath env_v3)" by (rule is_backup_paths)
  have h1: "sync_db_v1 = sync_db_v1 \<and> \<not> shouldSkip_v1 (tag_name release_v3) fresh \<or>
            sync_db_v1 = sync_db_v2 \<and>
            (\<exists>localTag. localTag_v2 fresh = Inr localTag \<and>
               \<not> shouldSkip_v2 (tag_name release_v3) localTag fresh)"
    using s1 by simp
  have h2: "sync_db_v2 = sync_db_v1 \<and> \<not> shouldSkip_v1 (tag_name release_v3) fresh \<or>
            sync_db_v2 = sync_db_v2 \<and>
            (\<exists>localTag. localTag_v2 fresh = Inr localTag \<and>
               \<not> shouldSkip_v2 (tag_name release_v3) localTag fresh)"
    using lt s2 by simp
  note t1 = no_checksum_asset_installs [OF rel primary nosha dl disjI1 [OF none] mv wr h1,
      THEN conjunct2]
  note t2 = no_checksum_asset_installs [OF rel primary nosha dl disjI1 [OF none] mv wr h2,
      THEN conjunct2]
  note c1 = t1 [THEN conjunct1] t1 [THEN conjunct2, THEN conjunct2, THEN conjunct1]
    t1 [THEN conjunct2, THEN conjunct2, THEN conjunct2, THEN conjunct1]
    t1 [THEN conjunct2, THEN conjunct2, THEN conjunct2, THEN conjunct2, THEN conjunct2,
        THEN mp, OF none, THEN spec, THEN mp, OF b]
  note c2 = t2 [THEN conjunct1] t2 [THEN conjunct2, THEN conjunct2, THEN conjunct1]
    t2 [THEN conjunct2, THEN conjunct2, THEN conjunct2, THEN conjunct1]
    t2 [THEN conjunct2, THEN conjunct2, THEN conjunct2, THEN conjunct2, THEN conjunct2,
        THEN mp, OF none, THEN spec, THEN mp, OF b]
  show ?thesis
    by (intro conjI; fact rel primary as ne dl none mv wr s1 lt s2 b c1 c2)
qed

section \<open>Remote Locator\<close>

lemma ps_eq_length: "ps_eq a b \<Longrightarrow> length a = length b"
  unfolding ps_eq_def ToLower_def by (rule map_eq_imp_length_eq)

lemma lower_char_punct:
  "lower_char c = CHR ''.'' \<Longrightarrow> c = CHR ''.''"
  using lower_char_cases [of c] by auto

lemma ToLower_literals [simp]:
  "ToLower ''.git'' = ''.git''" "ToLower ''github.com'' = ''github.com''"
  by (simp_all add: ToLower_def lower_char_def)

lemma ps_eq_git_head:
  assumes "ps_eq g ''.git''"
  shows "\<exists>g'. g = CHR ''.'' # g'"
proof -
  from ps_eq_length [OF assms] obtain x g' where g: "g = x # g'" by (cases g) auto
  from assms have "ToLower g = ''.git''" by (simp add: ps_eq_def)
  with g have "lower_char x = CHR ''.''" by (simp add: ToLower_def)
  then have "x = CHR ''.''" by (rule lower_char_punct)
  with g show ?thesis by simp
qed

lemma takeWhile_stop:
  "\<forall>x\<in>set xs. P x \<Longrightarrow> \<not> P y \<Longrightarrow> takeWhile P (xs @ y # ys) = xs"
  by (induction xs) auto

lemma dropWhile_stop:
  "\<forall>x\<in>set xs. P x \<Longrightarrow> \<not> P y \<Longrightarrow> dropWhile P (xs @ y # ys) = y # ys"
  by (induction xs) auto

lemma takeWhile_all: "\<forall>x\<in>set xs. P x \<Longrightarrow> takeWhile P xs = xs"
  by (induction xs) auto

text \<open>A text of the form host, separator, owner, slash, repo and suffix matches at its
  head, with that owner and that repo.\<close>

lemma match_here_complete:
  assumes host: "ps_eq host ''github.com''"
    and sep: "sep = CHR '':'' \<or> sep = CHR ''/''"
    and owner: "owner \<noteq> []" "CHR ''/'' \<notin> set owner"
    and repo: "repo \<noteq> []" "CHR ''/'' \<notin> set repo" "CHR ''.'' \<notin> set repo"
    and suffix: "suffix = [] \<or> ps_eq suffix ''.git''"
  shows "match_here (host @ sep # owner @ CHR ''/'' # repo @ suffix) = Some (owner, repo)"
proof -
  let ?s = "host @ sep # owner @ CHR ''/'' # repo @ suffix"
  from ps_eq_length [OF host] have len: "length host = 10" by simp
  then have pre: "ci_prefix ''github.com'' ?s"
    using host by (simp add: ci_prefix_def)
  have d: "drop 10 ?s = sep # owner @ CHR ''/'' # repo @ suffix" using len by simp
  have o: "takeWhile not_slash (owner @ CHR ''/'' # repo @ suffix) = owner"
    "dropWhile not_slash (owner @ CHR ''/'' # repo @ suffix) = CHR ''/'' # repo @ suffix"
    using owner(2) by (auto intro!: takeWhile_stop dropWhile_stop simp: not_slash_def)
  have rp: "\<forall>x\<in>set repo. not_slash_dot x" using repo(2,3) by (auto simp: not_slash_dot_def)
  from suffix have r: "takeWhile not_slash_dot (repo @ suffix) = repo \<and>
     dropWhile not_slash_dot (repo @ suffix) = suffix \<and>
     ((ci_prefix ''.git'' suffix \<and> at_end (drop 4 suffix)) \<or> at_end suffix)"
  proof
    assume "suffix = []"
    with rp show ?thesis by (simp add: takeWhile_all dropWhile_all list_all_iff at_end_def)
  next
    assume g: "ps_eq suffix ''.git''"
    from ps_eq_git_head [OF g] obtain g' where g': "suffix = CHR ''.'' # g'" ..
    have nd: "\<not> not_slash_dot (CHR ''.'')" by (simp add: not_slash_dot_def)
    from ps_eq_length [OF g] have "length suffix = 4" by simp
    with g have "ci_prefix ''.git'' suffix \<and> at_end (drop 4 suffix)"
      by (simp add: ci_prefix_def at_end_def)
    moreover have "takeWhile not_slash_dot (repo @ suffix) = repo"
      unfolding g' using rp nd by (rule takeWhile_stop)
    moreover have "dropWhile not_slash_dot (repo @ suffix) = suffix"
      unfolding g' using rp nd by (rule dropWhile_stop)
    ultimately show ?thesis by simp
  qed
  show ?thesis
    unfolding match_here_def using pre d sep o r owner(1) repo(1)
    by (simp del: append.simps drop_append)
qed

lemma match_here_needs_host: "\<not> ci_prefix ''github.com'' s \<Longrightarrow> match_here s = None"
  by (simp add: match_here_def)

lemma first_match_skip:
  "\<forall>i<length pre. \<not> ci_prefix ''github.com'' (drop i (pre @ s)) \<Longrightarrow>
     first_match (pre @ s) = first_match s"
proof (induction pre)
  case Nil
  then show ?case by simp
next
  case (Cons c pre)
  from Cons.prems have "\<not> ci_prefix ''github.com'' (drop 0 ((c # pre) @ s))" by blast
  then have h: "match_here ((c # pre) @ s) = None" by (simp add: match_here_needs_host)
  have "\<forall>i<length pre. \<not> ci_prefix ''github.com'' (drop i (pre @ s))"
  proof (intro allI impI)
    fix i assume "i < length pre"
    then have "Suc i < length (c # pre)" by simp
    with Cons.prems have "\<not> ci_prefix ''github.com'' (drop (Suc i) ((c # pre) @ s))" by blast
    then show "\<not> ci_prefix ''github.com'' (drop i (pre @ s))" by simp
  qed
  then have "first_match (pre @ s) = first_match s" by (rule Cons.IH)
  with h show ?case by simp
qed

lemma first_match_here: "match_here s = Some r \<Longrightarrow> first_match s = Some r"
  by (cases s) (simp_all add: match_here_def ci_prefix_def)

lemma Parse_GitRemote_complete:
  assumes "url = pre @ host @ sep # owner @ CHR ''/'' # repo @ suffix"
    and "\<forall>i<length pre. \<not> ci_prefix ''github.com'' (drop i url)"
    and "ps_eq host ''github.com''"
    and "sep = CHR '':'' \<or> sep = CHR ''/''"
    and "owner \<noteq> []" "CHR ''/'' \<notin> set owner"
    and "repo \<noteq> []" "CHR ''/'' \<notin> set repo" "CHR ''.'' \<notin> set repo"
    and "suffix = [] \<or> ps_eq suffix ''.git''"
  shows "Parse_GitRemote url = (owner, repo)"
proof -
  have "first_match url = first_match (host @ sep # owner @ CHR ''/'' # repo @ suffix)"
    using assms(2) unfolding assms(1) by (rule first_match_skip)
  also have "\<dots> = Some (owner, repo)"
    using assms(3-) by (intro first_match_here match_here_complete)
  finally show ?thesis by (simp add: Parse_GitRemote_def)
qed

lemma dropWhile_head: "dropWhile P xs = y # ys \<Longrightarrow> \<not> P y"
  using hd_dropWhile [of P xs] by auto

lemma set_takeWhile: "x \<in> set (takeWhile P xs) \<Longrightarrow> P x"
  by (rule set_takeWhileD [THEN conjunct2])

text \<open>What matched at the head of a text has that form.\<close>

lemma match_here_sound:
  assumes m: "match_here s = Some (owner, repo)"
  shows "\<exists>host sep suffix.
           s = host @ sep # owner @ CHR ''/'' # repo @ suffix \<and>
           ps_eq host ''github.com'' \<and> (sep = CHR '':'' \<or> sep = CHR ''/'') \<and>
           owner \<noteq> [] \<and> CHR ''/'' \<notin> set owner \<and>
           repo \<noteq> [] \<and> CHR ''/'' \<notin> set repo \<and> CHR ''.'' \<notin> set repo \<and>
           (suffix = [] \<or> (ps_eq (take 4 suffix) ''.git'' \<and> at_end (drop 4 suffix)))"
proof -
  from m have pre: "ci_prefix ''github.com'' s"
    by (auto simp: match_here_def split: if_splits)
  with m obtain sep s1 where d: "drop 10 s = sep # s1"
    by (cases "drop 10 s") (auto simp: match_here_def)
  with m pre have sep: "sep = CHR '':'' \<or> sep = CHR ''/''"
    by (auto simp: match_here_def split: if_splits)
  let ?o = "takeWhile not_slash s1"
  from m pre d sep have o: "?o \<noteq> []"
    by (auto simp: match_here_def Let_def split: if_splits)
  with m pre d sep obtain slash s2 where d2: "dropWhile not_slash s1 = slash # s2"
    by (auto simp: match_here_def Let_def split: if_splits list.splits)
  let ?r = "takeWhile not_slash_dot s2" and ?s3 = "dropWhile not_slash_dot s2"
  from m pre d sep o d2 have r: "?r \<noteq> []"
    and e: "(ci_prefix ''.git'' ?s3 \<and> at_end (drop 4 ?s3)) \<or> at_end ?s3"
    and res: "owner = ?o" "repo = ?r"
    by (auto simp: match_here_def Let_def split: if_splits)
  from dropWhile_head [OF d2] have slash: "slash = CHR ''/''" by (simp add: not_slash_def)
  have "s = take 10 s @ drop 10 s" by simp
  also have "drop 10 s = sep # (?o @ dropWhile not_slash s1)" by (simp add: d)
  also have "dropWhile not_slash s1 = CHR ''/'' # (?r @ ?s3)" by (simp add: d2 slash)
  finally have s: "s = take 10 s @ sep # owner @ CHR ''/'' # repo @ ?s3"
    by (simp add: res)
  have ten: "length ''github.com'' = 10" by simp
  from pre have "ps_eq (take (length ''github.com'') s) ''github.com''"
    unfolding ci_prefix_def by (rule conjunct2)
  then have host: "ps_eq (take 10 s) ''github.com''" by (simp only: ten)
  have no: "CHR ''/'' \<notin> set owner"
    unfolding res using set_takeWhile [of "CHR ''/''" not_slash s1] by (auto simp: not_slash_def)
  have nr: "CHR ''/'' \<notin> set repo" "CHR ''.'' \<notin> set repo"
    unfolding res using set_takeWhile [of _ not_slash_dot s2] by (auto simp: not_slash_dot_def)
  have suf: "?s3 = [] \<or> (ps_eq (take 4 ?s3) ''.git'' \<and> at_end (drop 4 ?s3))"
  proof (cases "?s3")
    case Nil
    then show ?thesis by simp
  next
    case (Cons y ys)
    from dropWhile_head [OF Cons] have "y \<noteq> LF" by (auto simp: not_slash_dot_def LF_def)
    with Cons have "\<not> at_end ?s3" by (simp add: at_end_def)
    moreover have "length ''.git'' = 4" by simp
    ultimately show ?thesis using e unfolding ci_prefix_def by (simp only:) blast
  qed
  from s host sep o r no nr suf res show ?thesis by blast
qed

lemma first_match_sound:
  "first_match url = Some r \<Longrightarrow> \<exists>pre s. url = pre @ s \<and> match_here s = Some r"
proof (induction url)
  case Nil
  then show ?case by simp
next
  case (Cons c cs)
  show ?case
  proof (cases "match_here (c # cs)")
    case (Some a)
    with Cons.prems have "match_here (c # cs) = Some r" by simp
    then have "c # cs = [] @ (c # cs) \<and> match_here (c # cs) = Some r" by simp
    then show ?thesis by blast
  next
    case None
    with Cons.prems have "first_match cs = Some r" by simp
    from Cons.IH [OF this] obtain pre s where "cs = pre @ s" "match_here s = Some r" by blast
    then have "c # cs = (c # pre) @ s \<and> match_here s = Some r" by simp
    then show ?thesis by blast
  qed
qed

lemma Parse_GitRemote_sound:
  assumes "Parse_GitRemote url = (owner, repo)" and "owner \<noteq> [] \<or> repo \<noteq> []"
  shows "\<exists>pre host sep suffix.
           url = pre @ host @ sep # owner @ CHR ''/'' # repo @ suffix \<and>
           ps_eq host ''github.com'' \<and> (sep = CHR '':'' \<or> sep = CHR ''/'') \<and>
           owner \<noteq> [] \<and> CHR ''/'' \<notin> set owner \<and>
           repo \<noteq> [] \<and> CHR ''/'' \<notin> set repo \<and> CHR ''.'' \<notin> set repo \<and>
           (suffix = [] \<or> (ps_eq (take 4 suffix) ''.git'' \<and> at_end (drop 4 suffix)))"
proof -
  from assms have "first_match url = Some (owner, repo)"
    by (auto simp: Parse_GitRemote_def split: option.splits)
  from first_match_sound [OF this] obtain pre s where
    url: "url = pre @ s" and m: "match_here s = Some (owner, repo)" by blast
  from match_here_sound [OF m] url show ?thesis by blast
qed

lemma Parse_GitRemote_both:
  "Parse_GitRemote url = (owner, repo) \<Longrightarrow> (owner = []) = (repo = [])"
  using Parse_GitRemote_sound [of url owner repo] by blast

lemma resolve_explicit:
  "Owner p \<noteq> [] \<Longrightarrow> Repo p \<noteq> [] \<Longrightarrow>
     resolve_v1 p e = Inr (Owner p, Repo p) \<and> resolve_v2 p e = Inr (Owner p, Repo p)"
  by (simp add: resolve_v1_def resolve_v2_def)

lemma resolve_remote:
  assumes "Owner p = [] \<or> Repo p = []" and "git_remote e = GitOutput url"
  shows "resolve_v2 p e =
     (if Parse_GitRemote url = ([], []) then Inl ConfigurationError else Inr (Parse_GitRemote url))"
proof (cases "Parse_GitRemote url")
  case (Pair owner repo)
  from Parse_GitRemote_both [OF Pair] Pair assms show ?thesis
    by (auto simp: resolve_v2_def)
qed

lemma resolve_failed:
  assumes "Owner p = [] \<or> Repo p = []" and "git_remote e = GitFailed"
  shows "resolve_v2 p e = Inl ConfigurationError"
  using assms by (auto simp: resolve_v2_def)




lemma demo_remote_no_earlier_host:
  "\<forall>i<length ''https://''. \<not> ci_prefix ''github.com'' (drop i demo_remote)"
proof -
  have "\<forall>i\<in>set [0..<8]. \<not> ci_prefix ''github.com'' (drop i demo_remote)"
    by code_simp
  then show ?thesis by simp
qed


section \<open>The two variants side by side\<close>

lemma expected_empty: "expected_v1 [] = Inl NullValueError" "expected_v2 [] = Inl NullValueError"
  by (simp_all add: expected_v1_def expected_v2_def Get_Content_Raw_def)

lemma ReadLines_not_Nil: "cs \<noteq> [] \<Longrightarrow> ReadLines acc cs \<noteq> []"
  by (induction acc cs rule: ReadLines.induct) auto

lemma expected_Inr:
  assumes "c \<noteq> []"
  shows "\<exists>x. expected_v1 c = Inr x" and "\<exists>x. expected_v2 c = Inr x"
  using assms ReadLines_not_Nil [of c "[]"]
  by (auto simp: expected_v1_def expected_v2_def Get_Content_Raw_def Let_def
      split: list.splits option.splits)

lemma verify_agree:
  assumes st: "staged_ok p e rel w" and art: "release_artifact p e rel = Some body"
    and agree: "\<And>s c x1 x2. find_asset (assets rel) (ShaAssetName p) = Some s \<Longrightarrow>
      web_get e (browser_download_url s) = Fetched c \<Longrightarrow>
      expected_v1 c = Inr x1 \<Longrightarrow> expected_v2 c = Inr x2 \<Longrightarrow>
      ps_eq (ToLower x1) (actual_hash e body) = ps_eq x2 (actual_hash e body)"
  shows "verify_v2 p e rel w =
     (fst (verify_v1 p e rel w),
      if fst (verify_v1 p e rel w) = Some IntegrityError
      then Remove_Item e (tmpDownload p) (snd (verify_v1 p e rel w))
      else snd (verify_v1 p e rel w))"
proof (cases "find_asset (assets rel) (ShaAssetName p)")
  case None
  then show ?thesis by (simp add: verify_v1_def verify_v2_def)
next
  case (Some s)
  show ?thesis
  proof (cases "web_get e (browser_download_url s)")
    case (Broken partial)
    with Some show ?thesis
      by (cases partial) (simp_all add: verify_v1_def verify_v2_def Invoke_WebRequest_def)
  next
    case (Fetched c)
    let ?w1 = "w\<lparr>files := (files w)(shaTmp p \<mapsto> c),
                 requests := requests w @ [WebGet (browser_download_url s)]\<rparr>"
    have dl: "Invoke_WebRequest e (browser_download_url s) (shaTmp p) w = (True, ?w1)"
      using Fetched by (simp add: Invoke_WebRequest_def)
    from staged_checksum [OF Some dl st] art
    have staged: "files ?w1 (tmpDownload p) = Some body" by (simp add: staged_ok_def)
    have sha: "files ?w1 (shaTmp p) = Some c" by simp
    show ?thesis
    proof (cases "c = []")
      case True
      with Some dl sha show ?thesis
        by (simp add: verify_v1_def verify_v2_def expected_empty del: fun_upd_apply)
    next
      case False
      from expected_Inr [OF False] obtain x1 x2 where
        x: "expected_v1 c = Inr x1" "expected_v2 c = Inr x2" by blast
      note agree [OF Some Fetched x]
      with Some dl sha staged x show ?thesis
        by (simp add: verify_v1_def verify_v2_def del: fun_upd_apply)
    qed
  qed
qed

lemma fetch_agree:
  assumes agree: "\<And>body s c x1 x2. release_artifact p e rel = Some body \<Longrightarrow>
      find_asset (assets rel) (ShaAssetName p) = Some s \<Longrightarrow>
      web_get e (browser_download_url s) = Fetched c \<Longrightarrow>
      expected_v1 c = Inr x1 \<Longrightarrow> expected_v2 c = Inr x2 \<Longrightarrow>
      ps_eq (ToLower x1) (actual_hash e body) = ps_eq x2 (actual_hash e body)"
  shows "fetch_and_replace verify_v2 p e rel w =
     (fst (fetch_and_replace verify_v1 p e rel w),
      if fst (fetch_and_replace verify_v1 p e rel w) = Failed IntegrityError
      then Remove_Item e (tmpDownload p) (snd (fetch_and_replace verify_v1 p e rel w))
      else snd (fetch_and_replace verify_v1 p e rel w))"
proof (cases "find_asset (assets rel) (AssetName p)")
  case None
  then show ?thesis by (simp add: fetch_and_replace_def)
next
  case (Some asset)
  obtain b w1 where dl: "Invoke_WebRequest e (browser_download_url asset) (tmpDownload p) w = (b, w1)"
    by (cases "Invoke_WebRequest e (browser_download_url asset) (tmpDownload p) w")
  show ?thesis
  proof (cases b)
    case False
    with Some dl show ?thesis by (simp add: fetch_and_replace_def)
  next
    case True
    with Some dl have st: "staged_ok p e rel w1" by (auto dest: staged_primary)
    then obtain body where art: "release_artifact p e rel = Some body"
      by (auto simp: staged_ok_def split: option.splits)
    obtain r w2 where v1: "verify_v1 p e rel w1 = (r, w2)" by (cases "verify_v1 p e rel w1")
    from verify_agree [OF st art agree [OF art]] v1
    have v2: "verify_v2 p e rel w1 =
        (r, if r = Some IntegrityError then Remove_Item e (tmpDownload p) w2 else w2)"
      by simp
    show ?thesis
    proof (cases r)
      case None
      obtain out w3 where rp: "replace_db p e (tag_name rel) w2 = (out, w3)"
        by (cases "replace_db p e (tag_name rel) w2")
      then have "out \<noteq> Failed IntegrityError" by (auto dest: replace_db_failure)
      with Some dl True v1 v2 None rp show ?thesis by (simp add: fetch_and_replace_def)
    next
      case (Some f)
      with \<open>find_asset (assets rel) (AssetName p) = Some asset\<close> dl True v1 v2 show ?thesis
        by (simp add: fetch_and_replace_def)
    qed
  qed
qed

lemma skip_agree:
  assumes "\<And>c. files w versionFile = Some c \<Longrightarrow>
      c \<noteq> [] \<and> (files w targetDb \<noteq> None \<longrightarrow> ps_eq tag (Trim c) = ps_eq tag c)"
  shows "\<exists>localTag. localTag_v2 w = Inr localTag \<and>
           shouldSkip_v2 tag localTag w = shouldSkip_v1 tag w"
proof (cases "files w versionFile")
  case None
  then show ?thesis
    by (simp add: localTag_v2_def localTag_v1_def shouldSkip_v1_def shouldSkip_v2_def)
next
  case (Some c)
  from assms [OF Some] Some show ?thesis
    by (auto simp: localTag_v2_def localTag_v1_def shouldSkip_v1_def shouldSkip_v2_def
        Get_Content_Raw_def Test_Path_def)
qed




lemma sha_lookup:
  "find_asset (assets release_v4) (ShaAssetName demo_params) = Some sha_asset"
  by (simp add: release_v4_def find_asset_def db_asset_def sha_asset_def)

lemma demo_artifact:
  "release_artifact demo_params (demo_env release_v4 sha) release_v4 = Some ''NEW''"
  by (simp add: release_artifact_def release_v4_def find_asset_def db_asset_def)

lemma sha_good_parsed:
  "expected_v1 sha_good = Inr digest_new" "expected_v2 sha_good = Inr digest_new"
  by code_simp+

lemma sha_bad_parsed:
  "expected_v1 sha_bad = Inr digest_old" "expected_v2 sha_bad = Inr digest_old"
  by code_simp+

lemma demo_verdicts:
  "ps_eq (ToLower digest_new) (actual_hash (demo_env rel sha) ''NEW'')"
  "ps_eq digest_new (actual_hash (demo_env rel sha) ''NEW'')"
  "\<not> ps_eq (ToLower digest_old) (actual_hash (demo_env rel sha) ''NEW'')"
  "\<not> ps_eq digest_old (actual_hash (demo_env rel sha) ''NEW'')"
  unfolding actual_hash_def demo_env_sel by code_simp+

lemma demo_digest_agree:
  assumes "expected_v1 sha = Inr y1" and "expected_v2 sha = Inr y2"
    and "ps_eq (ToLower y1) (actual_hash (demo_env release_v4 sha) ''NEW'') =
         ps_eq y2 (actual_hash (demo_env release_v4 sha) ''NEW'')"
  shows "\<forall>rel body s c x1 x2.
           latest_release demo_params (demo_env release_v4 sha) = Some rel \<and>
           release_artifact demo_params (demo_env release_v4 sha) rel = Some body \<and>
           find_asset (assets rel) (ShaAssetName demo_params) = Some s \<and>
           web_get (demo_env release_v4 sha) (browser_download_url s) = Fetched c \<and>
           expected_v1 c = Inr x1 \<and> expected_v2 c = Inr x2 \<longrightarrow>
           ps_eq (ToLower x1) (actual_hash (demo_env release_v4 sha) body) =
           ps_eq x2 (actual_hash (demo_env release_v4 sha) body)"
proof (intro allI impI, elim conjE)
  fix rel body s c x1 x2
  assume "latest_release demo_params (demo_env release_v4 sha) = Some rel"
  then have rel: "rel = release_v4" by simp
  assume "release_artifact demo_params (demo_env release_v4 sha) rel = Some body"
  with rel have body: "body = ''NEW''" by (simp only: demo_artifact option.inject)
  assume "find_asset (assets rel) (ShaAssetName demo_params) = Some s"
  with rel sha_lookup have s: "s = sha_asset" by simp
  assume "web_get (demo_env release_v4 sha) (browser_download_url s) = Fetched c"
  with s have c: "c = sha" by (simp add: sha_asset_def)
  assume "expected_v1 c = Inr x1" "expected_v2 c = Inr x2"
  with c assms(1,2) have "x1 = y1" "x2 = y2" by simp_all
  with body assms(3)
  show "ps_eq (ToLower x1) (actual_hash (demo_env release_v4 sha) body) =
        ps_eq x2 (actual_hash (demo_env release_v4 sha) body)"
    by simp
qed

lemma demo_roots:
  "Get_RepoRoot_v1 demo_location = Some ''C:/work/sencity_backend''"
  "same_directory ''C:/work/sencity_backend'' (Get_RepoRoot_v2 demo_location)"
  by code_simp+


section \<open>Lifecycle Hook Installer\<close>

lemma Join_Path_inj [simp]: "(Join_Path a b = Join_Path a c) = (b = c)"
  by (simp add: Join_Path_def)

lemma write_hooks_ok:
  assumes "\<forall>t\<in>set ts. can_write e (Join_Path hooks t)"
  shows "write_hooks e hooks ts d =
     (None, d\<lparr>dfiles := (\<lambda>f. if f \<in> Join_Path hooks ` set ts then Some (stub e) else dfiles d f)\<rparr>)"
  using assms
proof (induction ts arbitrary: d)
  case Nil
  then show ?case by simp
next
  case (Cons t ts)
  then show ?case by (auto simp: Let_def stub_def fun_eq_iff)
qed

lemma install_hooks_ok:
  assumes root: "repoRoot e d = Inr root"
    and dir: "Test_Path_disk d (hooks_dir root)"
    and wr: "\<forall>t\<in>set targets. can_write e (Join_Path (hooks_dir root) t)"
  shows "install_hooks e d =
     (None, d\<lparr>dfiles := (\<lambda>f. if f \<in> Join_Path (hooks_dir root) ` set targets
                               then Some (stub e) else dfiles d f)\<rparr>)"
  using root dir write_hooks_ok [OF wr]
  by (simp add: install_hooks_def hooks_dir_def Let_def)


lemma git_is_no_hook: "Join_Path a ''.git'' \<notin> hook_paths root"
proof
  assume "Join_Path a ''.git'' \<in> hook_paths root"
  then obtain t where t: "t \<in> set targets" and eq: "Join_Path a ''.git'' = Join_Path (hooks_dir root) t"
    by (auto simp: hook_paths_def)
  from eq have "rev (Join_Path a ''.git'') = rev (Join_Path (hooks_dir root) t)" by simp
  then have "take 2 (rev (Join_Path a ''.git'')) = take 2 (rev (Join_Path (hooks_dir root) t))"
    by simp
  with t show False by (auto simp: Join_Path_def targets_def)
qed

lemma hooks_dir_is_no_hook: "hooks_dir root \<notin> hook_paths root"
  by (auto simp: hook_paths_def hooks_dir_def Join_Path_def)

lemma Test_Path_disk_mono:
  assumes "Test_Path_disk d f" and "dirs d' = dirs d" and "\<forall>g. dfiles d g \<noteq> None \<longrightarrow> dfiles d' g \<noteq> None"
  shows "Test_Path_disk d' f"
  using assms by (auto simp: Test_Path_disk_def)

lemma repoRoot_outside:
  assumes "dirs d' = dirs d" and "\<forall>f. f \<notin> hook_paths root \<longrightarrow> dfiles d' f = dfiles d f"
  shows "repoRoot e d' = repoRoot e d"
  using assms git_is_no_hook [of "script_parent e" root]
  by (simp add: repoRoot_def Test_Path_disk_def)

lemma hooks_dir_outside:
  assumes "dirs d' = dirs d" and "\<forall>f. f \<notin> hook_paths root \<longrightarrow> dfiles d' f = dfiles d f"
  shows "Test_Path_disk d' (hooks_dir root) = Test_Path_disk d (hooks_dir root)"
  using assms hooks_dir_is_no_hook [of root]
  by (simp add: Test_Path_disk_def)

text \<open>The result does not depend on what the hook files held before.\<close>

lemma install_hooks_overwrites:
  assumes root: "repoRoot e d = Inr root"
    and dir: "Test_Path_disk d (hooks_dir root)"
    and wr: "\<forall>t\<in>set targets. can_write e (Join_Path (hooks_dir root) t)"
    and same: "dirs d' = dirs d" "\<forall>f. f \<notin> hook_paths root \<longrightarrow> dfiles d' f = dfiles d f"
  shows "install_hooks e d' = install_hooks e d"
proof -
  have root': "repoRoot e d' = Inr root" using repoRoot_outside [OF same] root by simp
  have dir': "Test_Path_disk d' (hooks_dir root)" using hooks_dir_outside [OF same] dir by simp
  have "d'\<lparr>dfiles := (\<lambda>f. if f \<in> Join_Path (hooks_dir root) ` set targets
                               then Some (stub e) else dfiles d' f)\<rparr> =
        d\<lparr>dfiles := (\<lambda>f. if f \<in> Join_Path (hooks_dir root) ` set targets
                               then Some (stub e) else dfiles d f)\<rparr>"
    using same by (auto simp: hook_paths_def fun_eq_iff)
  then show ?thesis
    by (simp add: install_hooks_ok [OF root dir wr] install_hooks_ok [OF root' dir' wr])
qed

lemma stub_text:
  "stub e =
     ''@echo off'' @ here_eol e @
     ''REM Auto-sync DB from latest GitHub Release on checkout/merge/rewrite'' @ here_eol e @
     ''REM Uses PowerShell to run scripts'' @ [CHR 0x5C] @ ''sync_db.ps1'' @ here_eol e @
     ''powershell -NoProfile -ExecutionPolicy Bypass -File '' @ [CHR 0x22] @
       ''%~dp0..'' @ [CHR 0x5C] @ ''..'' @ [CHR 0x5C] @ ''scripts'' @ [CHR 0x5C] @
       ''sync_db.ps1'' @ [CHR 0x22] @ here_eol e @
     ''exit /b 0'' @ NewLine (hook_platform e)"
  by (simp add: stub_def bat_def bat_lines_def BSL_def DQ_def)

section \<open>The script that the stub runs\<close>

lemma segments_append:
  "segments acc (a @ CHR 0x5C # b) = segments acc a @ segments [] b"
  by (induction a arbitrary: acc) (simp_all add: BSL_def)

lemma resolve_dots_append:
  "resolve_dots seen (a @ b) = resolve_dots (resolve_dots seen a) b"
  by (induction a arbitrary: seen) simp_all

lemma stub_script_text:
  "stub_script hooks =
     hooks @ BSL # ''..'' @ BSL # ''..'' @ BSL # ''scripts'' @ BSL # ''sync_db.ps1''"
  by (simp add: stub_script_def expand_dp0_def quoted_def bat_lines_def DQ_def BSL_def
      numeral_3_eq_3)

lemma stub_script_same_file:
  "same_file (stub_script (hooks_dir root)) (Join_Path (Join_Path root ''scripts'') ''sync_db.ps1'')"
proof -
  have l: "segments [] (stub_script (hooks_dir root)) =
      segments [] root @ [''.git'', ''hooks'', ''..'', ''..'', ''scripts'', ''sync_db.ps1'']"
    by (simp add: stub_script_text hooks_dir_def Join_Path_def BSL_def segments_append)
  have r: "segments [] (Join_Path (Join_Path root ''scripts'') ''sync_db.ps1'') =
      segments [] root @ [''scripts'', ''sync_db.ps1'']"
    by (simp add: Join_Path_def BSL_def segments_append)
  show ?thesis
    unfolding same_file_def l r resolve_dots_append by (simp add: butlast_append)
qed

lemma repoRoot_failure:
  "repoRoot e d = Inl f \<Longrightarrow>
     f = EnvironmentError ''Cannot find repo root. Run from inside a Git repo.'' \<and>
     \<not> Test_Path_disk d (Join_Path (script_parent e) ''.git'') \<and> git_toplevel e = None"
  by (auto simp: repoRoot_def split: if_splits option.splits)

lemma write_hooks_failure:
  "fst (write_hooks e hooks ts d) \<noteq> Some (EnvironmentError msg)"
  by (induction ts arbitrary: d) (simp_all add: Let_def)

lemma install_hooks_EnvironmentError:
  "(\<exists>msg. fst (install_hooks e d) = Some (EnvironmentError msg)) =
   (\<not> (\<exists>root. repoRoot e d = Inr root \<and> Test_Path_disk d (hooks_dir root)))"
proof (cases "repoRoot e d")
  case (Inl f)
  with repoRoot_failure [OF Inl] show ?thesis by (simp add: install_hooks_def)
next
  case (Inr root)
  then show ?thesis
    by (simp add: install_hooks_def hooks_dir_def Let_def write_hooks_failure)
qed

text \<open>
  Claim C9. The installer writes the same stub to three files of the hooks directory,
  \<^verbatim>\<open>post-checkout.bat\<close>, \<^verbatim>\<open>post-merge.bat\<close> and \<^verbatim>\<open>post-rewrite.bat\<close>, and to no other
  file; the stub's command line runs PowerShell on the quoted path
  \<^verbatim>\<open>%~dp0..\..\scripts\sync_db.ps1\<close>, with no argument after it, and from a hook file
  that path is \<^verbatim>\<open>scripts\sync_db.ps1\<close> of the working copy; running the installer
  again, or on hook files with any other content, gives the same result; and it fails
  with \<open>EnvironmentError\<close> and writes nothing exactly when no hooks directory is found:
  the directory above the script has no \<^verbatim>\<open>.git\<close> and git gives no root, or the root
  has no \<^verbatim>\<open>.git\hooks\<close>.
\<close>

theorem hook_installer:
  "targets = [''post-checkout.bat'', ''post-merge.bat'', ''post-rewrite.bat''] \<and>
   distinct (map (Join_Path (hooks_dir root)) targets) \<and>
   stub e =
     ''@echo off'' @ here_eol e @
     ''REM Auto-sync DB from latest GitHub Release on checkout/merge/rewrite'' @ here_eol e @
     ''REM Uses PowerShell to run scripts'' @ [CHR 0x5C] @ ''sync_db.ps1'' @ here_eol e @
     ''powershell -NoProfile -ExecutionPolicy Bypass -File '' @ [CHR 0x22] @
       ''%~dp0..'' @ [CHR 0x5C] @ ''..'' @ [CHR 0x5C] @ ''scripts'' @ [CHR 0x5C] @
       ''sync_db.ps1'' @ [CHR 0x22] @ here_eol e @
     ''exit /b 0'' @ NewLine (hook_platform e) \<and>
   same_file (stub_script (hooks_dir root))
     (root @ [CHR 0x5C] @ ''scripts'' @ [CHR 0x5C] @ ''sync_db.ps1'') \<and>
   (repoRoot e d = Inr root \<and> Test_Path_disk d (hooks_dir root) \<and>
    (\<forall>t\<in>set targets. can_write e (Join_Path (hooks_dir root) t)) \<longrightarrow>
      fst (install_hooks e d) = None \<and>
      dirs (snd (install_hooks e d)) = dirs d \<and>
      (\<forall>f. dfiles (snd (install_hooks e d)) f =
            (if f \<in> hook_paths root then Some (stub e) else dfiles d f)) \<and>
      install_hooks e (snd (install_hooks e d)) = install_hooks e d \<and>
      (\<forall>d'. dirs d' = dirs d \<and> (\<forall>f. f \<notin> hook_paths root \<longrightarrow> dfiles d' f = dfiles d f) \<longrightarrow>
            install_hooks e d' = install_hooks e d)) \<and>
   (\<not> Test_Path_disk d (Join_Path (script_parent e) ''.git'') \<and> git_toplevel e = None \<longrightarrow>
      install_hooks e d =
        (Some (EnvironmentError ''Cannot find repo root. Run from inside a Git repo.''), d)) \<and>
   (repoRoot e d = Inr root \<and> \<not> Test_Path_disk d (hooks_dir root) \<longrightarrow>
      install_hooks e d =
        (Some (EnvironmentError ''.git/hooks not found (did you clone the repo?)''), d)) \<and>
   ((\<exists>msg. fst (install_hooks e d) = Some (EnvironmentError msg)) =
    (\<not> (\<exists>root. repoRoot e d = Inr root \<and> Test_Path_disk d (hooks_dir root))))"
proof (intro conjI impI)
  show "targets = [''post-checkout.bat'', ''post-merge.bat'', ''post-rewrite.bat'']"
    by (simp add: targets_def)
  show "distinct (map (Join_Path (hooks_dir root)) targets)"
    by (simp add: targets_def)
  show "stub e =
     ''@echo off'' @ here_eol e @
     ''REM Auto-sync DB from latest GitHub Release on checkout/merge/rewrite'' @ here_eol e @
     ''REM Uses PowerShell to run scripts'' @ [CHR 0x5C] @ ''sync_db.ps1'' @ here_eol e @
     ''powershell -NoProfile -ExecutionPolicy Bypass -File '' @ [CHR 0x22] @
       ''%~dp0..'' @ [CHR 0x5C] @ ''..'' @ [CHR 0x5C] @ ''scripts'' @ [CHR 0x5C] @
       ''sync_db.ps1'' @ [CHR 0x22] @ here_eol e @
     ''exit /b 0'' @ NewLine (hook_platform e)"
    by (rule stub_text)
  show "same_file (stub_script (hooks_dir root))
     (root @ [CHR 0x5C] @ ''scripts'' @ [CHR 0x5C] @ ''sync_db.ps1'')"
    using stub_script_same_file [of root] by (simp add: Join_Path_def BSL_def)
  show "(\<exists>msg. fst (install_hooks e d) = Some (EnvironmentError msg)) =
    (\<not> (\<exists>root. repoRoot e d = Inr root \<and> Test_Path_disk d (hooks_dir root)))"
    by (rule install_hooks_EnvironmentError)
next
  assume a: "repoRoot e d = Inr root \<and> Test_Path_disk d (hooks_dir root) \<and>
    (\<forall>t\<in>set targets. can_write e (Join_Path (hooks_dir root) t))"
  then have root: "repoRoot e d = Inr root" and dir: "Test_Path_disk d (hooks_dir root)"
    and wr: "\<forall>t\<in>set targets. can_write e (Join_Path (hooks_dir root) t)" by simp_all
  note ok = install_hooks_ok [OF root dir wr]
  let ?d = "snd (install_hooks e d)"
  show "fst (install_hooks e d) = None" by (simp add: ok)
  show dirs: "dirs ?d = dirs d" by (simp add: ok)
  show files: "\<forall>f. dfiles ?d f = (if f \<in> hook_paths root then Some (stub e) else dfiles d f)"
    by (simp add: ok hook_paths_def)
  have over: "install_hooks e d' = install_hooks e d"
    if "dirs d' = dirs d" "\<forall>f. f \<notin> hook_paths root \<longrightarrow> dfiles d' f = dfiles d f" for d'
    using root dir wr that by (rule install_hooks_overwrites)
  from files have "\<forall>f. f \<notin> hook_paths root \<longrightarrow> dfiles ?d f = dfiles d f" by simp
  with dirs show "install_hooks e ?d = install_hooks e d" by (rule over)
  from over show "\<forall>d'. dirs d' = dirs d \<and>
      (\<forall>f. f \<notin> hook_paths root \<longrightarrow> dfiles d' f = dfiles d f) \<longrightarrow>
      install_hooks e d' = install_hooks e d" by blast
next
  assume "\<not> Test_Path_disk d (Join_Path (script_parent e) ''.git'') \<and> git_toplevel e = None"
  then show "install_hooks e d =
        (Some (EnvironmentError ''Cannot find repo root. Run from inside a Git repo.''), d)"
    by (simp add: install_hooks_def repoRoot_def)
next
  assume "repoRoot e d = Inr root \<and> \<not> Test_Path_disk d (hooks_dir root)"
  then show "install_hooks e d =
        (Some (EnvironmentError ''.git/hooks not found (did you clone the repo?)''), d)"
    by (simp add: install_hooks_def hooks_dir_def Let_def)
qed

text \<open>The theorem at a clone that holds an old stub, at a working copy without a
  hooks directory, and at a directory that is no working copy.\<close>

theorem hook_installer_witness:
  "(repoRoot demo_hook_env cloned = Inr demo_root \<and>
    Test_Path_disk cloned (hooks_dir demo_root) \<and>
    list_all (\<lambda>t. can_write demo_hook_env (Join_Path (hooks_dir demo_root) t)) targets \<and>
    dfiles cloned (Join_Path (hooks_dir demo_root) ''post-merge.bat'') = Some ''rem old stub'' \<and>
    fst (install_hooks demo_hook_env cloned) = None \<and>
    dfiles (snd (install_hooks demo_hook_env cloned)) (Join_Path (hooks_dir demo_root) ''post-checkout.bat'')
      = Some (stub demo_hook_env) \<and>
    dfiles (snd (install_hooks demo_hook_env cloned)) (Join_Path (hooks_dir demo_root) ''post-merge.bat'')
      = Some (stub demo_hook_env) \<and>
    dfiles (snd (install_hooks demo_hook_env cloned)) (Join_Path (hooks_dir demo_root) ''post-rewrite.bat'')
      = Some (stub demo_hook_env) \<and>
    install_hooks demo_hook_env (snd (install_hooks demo_hook_env cloned)) =
      install_hooks demo_hook_env cloned) \<and>
   (repoRoot demo_hook_env no_hooks_dir = Inr demo_root \<and>
    \<not> Test_Path_disk no_hooks_dir (hooks_dir demo_root) \<and>
    install_hooks demo_hook_env no_hooks_dir =
      (Some (EnvironmentError ''.git/hooks not found (did you clone the repo?)''), no_hooks_dir)) \<and>
   (\<not> Test_Path_disk no_checkout (Join_Path (script_parent demo_hook_env) ''.git'') \<and>
    git_toplevel demo_hook_env = None \<and>
    install_hooks demo_hook_env no_checkout =
      (Some (EnvironmentError ''Cannot find repo root. Run from inside a Git repo.''), no_checkout))"
proof -
  have root: "repoRoot demo_hook_env cloned = Inr demo_root"
    by (simp add: repoRoot_def Test_Path_disk_def cloned_def demo_hook_env_def)
  have dir: "Test_Path_disk cloned (hooks_dir demo_root)"
    by (simp add: Test_Path_disk_def cloned_def)
  have wr: "\<forall>t\<in>set targets. can_write demo_hook_env (Join_Path (hooks_dir demo_root) t)"
    by (simp add: demo_hook_env_def)
  have wr': "list_all (\<lambda>t. can_write demo_hook_env (Join_Path (hooks_dir demo_root) t)) targets"
    using wr by (simp add: list_all_iff)
  have old: "dfiles cloned (Join_Path (hooks_dir demo_root) ''post-merge.bat'') = Some ''rem old stub''"
    by (simp add: cloned_def)
  note rest = hook_installer [of demo_root demo_hook_env cloned,
      THEN conjunct2, THEN conjunct2, THEN conjunct2, THEN conjunct2]
  note t = rest [THEN conjunct1, THEN mp, OF conjI [OF root conjI [OF dir wr]]]
  note files = t [THEN conjunct2, THEN conjunct2, THEN conjunct1]
  have paths: "Join_Path (hooks_dir demo_root) ''post-checkout.bat'' \<in> hook_paths demo_root"
    "Join_Path (hooks_dir demo_root) ''post-merge.bat'' \<in> hook_paths demo_root"
    "Join_Path (hooks_dir demo_root) ''post-rewrite.bat'' \<in> hook_paths demo_root"
    by (simp_all add: hook_paths_def targets_def)
  have f1: "dfiles (snd (install_hooks demo_hook_env cloned)) (Join_Path (hooks_dir demo_root) ''post-checkout.bat'')
      = Some (stub demo_hook_env)"
    using files [THEN spec, of "Join_Path (hooks_dir demo_root) ''post-checkout.bat''"] paths(1)
    by (simp only: if_True)
  have f2: "dfiles (snd (install_hooks demo_hook_env cloned)) (Join_Path (hooks_dir demo_root) ''post-merge.bat'')
      = Some (stub demo_hook_env)"
    using files [THEN spec, of "Join_Path (hooks_dir demo_root) ''post-merge.bat''"] paths(2)
    by (simp only: if_True)
  have f3: "dfiles (snd (install_hooks demo_hook_env cloned)) (Join_Path (hooks_dir demo_root) ''post-rewrite.bat'')
      = Some (stub demo_hook_env)"
    using files [THEN spec, of "Join_Path (hooks_dir demo_root) ''post-rewrite.bat''"] paths(3)
    by (simp only: if_True)
  have root0: "repoRoot demo_hook_env no_hooks_dir = Inr demo_root"
    by (simp add: repoRoot_def Test_Path_disk_def no_hooks_dir_def demo_hook_env_def)
  have nodir: "\<not> Test_Path_disk no_hooks_dir (hooks_dir demo_root)"
    by (simp add: Test_Path_disk_def no_hooks_dir_def hooks_dir_def Join_Path_def)
  note u = hook_installer [of demo_root demo_hook_env no_hooks_dir,
      THEN conjunct2, THEN conjunct2, THEN conjunct2, THEN conjunct2, THEN conjunct2,
      THEN conjunct2, THEN conjunct1, THEN mp, OF conjI [OF root0 nodir]]
  have nogit: "\<not> Test_Path_disk no_checkout (Join_Path (script_parent demo_hook_env) ''.git'')"
    by (simp add: Test_Path_disk_def no_checkout_def demo_hook_env_def Join_Path_def)
  have notop: "git_toplevel demo_hook_env = None" by (simp add: demo_hook_env_def)
  note v = hook_installer [of demo_root demo_hook_env no_checkout,
      THEN conjunct2, THEN conjunct2, THEN conjunct2, THEN conjunct2, THEN conjunct2,
      THEN conjunct1, THEN mp, OF conjI [OF nogit notop]]
  show ?thesis
    by (intro conjI; fact root dir wr' old t [THEN conjunct1] f1 f2 f3
        t [THEN conjunct2, THEN conjunct2, THEN conjunct2, THEN conjunct1] root0 nodir u
        nogit notop v)
qed

end
